theory Spec2Isabelle
  imports Main
begin

section \<open>JavaScript values\<close>

text \<open>
  The program is JavaScript: the task index on disk, the replies of the task store and the
  records the reconciler builds are all dynamically typed values.  A value is modelled by
  \<open>jsval\<close>.  An object is the list of its own properties (a lookup takes the first binding
  of a key); \<open>JBuiltin\<close> stands for the functions and the prototype object that every plain
  object inherits from \<open>Object.prototype\<close> (the program only tests such a value and reads
  its \<open>id\<close>; it never converts one to a string).  Numbers are the integers a JavaScript
  number holds exactly: no number of this program that decides a branch is fractional or
  beyond \<open>2 ^ 53\<close>.
\<close>

datatype jsval =
    JUndefined
  | JNull
  | JBool bool
  | JNum int
  | JStr string
  | JArr "jsval list"
  | JObj "(string \<times> jsval) list"
  | JBuiltin

datatype error =
    Error string
  | TypeError
  | SyntaxError
  | IOError
  | HttpError string

subsection \<open>Conversion to string\<close>

definition digit_char :: "nat \<Rightarrow> char" where
  "digit_char d = ''0123456789'' ! d"

function show_nat :: "nat \<Rightarrow> string" where
  "show_nat n = (if n < 10 then [digit_char n] else show_nat (n div 10) @ [digit_char (n mod 10)])"
  by pat_completeness auto
termination
  by (relation "measure id") auto

definition show_int :: "int \<Rightarrow> string" where
  "show_int i = (if i < 0 then CHR ''-'' # show_nat (nat (- i)) else show_nat (nat i))"

fun join :: "string \<Rightarrow> string list \<Rightarrow> string" where
  "join sep [] = []"
| "join sep [s] = s"
| "join sep (s # t # ss) = s @ sep @ join sep (t # ss)"

text \<open>
  \<open>to_string\<close> is the conversion a template literal and a computed property key apply
  (\<^verbatim>\<open>`${v}`\<close>, \<^verbatim>\<open>map[v]\<close>).  An array joins its elements with commas, \<open>null\<close> and \<open>undefined\<close>
  elements giving the empty string.
\<close>

fun to_string :: "jsval \<Rightarrow> string" where
  "to_string JUndefined = ''undefined''"
| "to_string JNull = ''null''"
| "to_string (JBool b) = (if b then ''true'' else ''false'')"
| "to_string (JNum n) = show_int n"
| "to_string (JStr s) = s"
| "to_string (JArr xs) =
     join '','' (map (\<lambda>x. if x = JUndefined \<or> x = JNull then [] else to_string x) xs)"
| "to_string (JObj ps) = ''[object Object]''"
| "to_string JBuiltin = ''[object Object]''"

subsection \<open>Truthiness and property reads\<close>

fun truthy :: "jsval \<Rightarrow> bool" where
  "truthy JUndefined = False"
| "truthy JNull = False"
| "truthy (JBool b) = b"
| "truthy (JNum n) = (n \<noteq> 0)"
| "truthy (JStr s) = (s \<noteq> [])"
| "truthy (JArr xs) = True"
| "truthy (JObj ps) = True"
| "truthy JBuiltin = True"

text \<open>
  \<open>get_prop v k\<close> is the read \<^verbatim>\<open>v.k\<close> for the property names this program reads
  (\<open>apiKey\<close>, \<open>workspaceId\<close>, \<open>tasks\<close>, \<open>fileId\<close>, \<open>id\<close>, \<open>name\<close>, \<open>spaces\<close>, \<open>folders\<close>,
  \<open>lists\<close>), none of which is a built-in property of the values it is read from: the read
  throws a TypeError on \<open>null\<close> and \<open>undefined\<close>, finds an own property of an object, and
  is \<open>undefined\<close> everywhere else.
\<close>

fun get_prop :: "jsval \<Rightarrow> string \<Rightarrow> error + jsval" where
  "get_prop JUndefined k = Inl TypeError"
| "get_prop JNull k = Inl TypeError"
| "get_prop (JObj ps) k = Inr (case map_of ps k of Some v \<Rightarrow> v | None \<Rightarrow> JUndefined)"
| "get_prop v k = Inr JUndefined"

text \<open>\<^verbatim>\<open>v.length\<close>: the one built-in property the program reads.\<close>

fun get_length :: "jsval \<Rightarrow> error + jsval" where
  "get_length JUndefined = Inl TypeError"
| "get_length JNull = Inl TypeError"
| "get_length (JArr xs) = Inr (JNum (int (length xs)))"
| "get_length (JStr s) = Inr (JNum (int (length s)))"
| "get_length (JObj ps) = Inr (case map_of ps ''length'' of Some v \<Rightarrow> v | None \<Rightarrow> JUndefined)"
| "get_length v = Inr JUndefined"

text \<open>
  The assignment \<^verbatim>\<open>v.k = x\<close>: a TypeError on \<open>null\<close> and \<open>undefined\<close>; on an object the
  property is replaced in place or added last; on a primitive the assignment is dropped
  (the modules are not in strict mode).  A named property put on an array is invisible to
  every later read of this program and to \<open>JSON.stringify\<close>, so the array is left as it is.
\<close>

fun update_prop :: "string \<Rightarrow> jsval \<Rightarrow> (string \<times> jsval) list \<Rightarrow> (string \<times> jsval) list" where
  "update_prop k x [] = [(k, x)]"
| "update_prop k x (p # ps) = (if fst p = k then (k, x) # ps else p # update_prop k x ps)"

fun set_prop :: "jsval \<Rightarrow> string \<Rightarrow> jsval \<Rightarrow> error + jsval" where
  "set_prop JUndefined k x = Inl TypeError"
| "set_prop JNull k x = Inl TypeError"
| "set_prop (JObj ps) k x = Inr (JObj (update_prop k x ps))"
| "set_prop v k x = Inr v"

text \<open>\<^verbatim>\<open>for (const x of v)\<close>: arrays and strings are iterable, nothing else here is.\<close>

fun iterate :: "jsval \<Rightarrow> error + jsval list" where
  "iterate (JArr xs) = Inr xs"
| "iterate (JStr s) = Inr (map (\<lambda>c. JStr [c]) s)"
| "iterate v = Inl TypeError"

text \<open>\<^verbatim>\<open>v.find(x => x.name === n)\<close>: a TypeError unless \<open>v\<close> is an array.\<close>

fun find_in :: "string \<Rightarrow> jsval list \<Rightarrow> error + jsval" where
  "find_in n [] = Inr JUndefined"
| "find_in n (x # xs) =
     (case get_prop x ''name'' of
        Inl e \<Rightarrow> Inl e
      | Inr v \<Rightarrow> if v = JStr n then Inr x else find_in n xs)"

fun find_named :: "string \<Rightarrow> jsval \<Rightarrow> error + jsval" where
  "find_named n (JArr xs) = find_in n xs"
| "find_named n v = Inl TypeError"

subsection \<open>JSON\<close>

text \<open>
  \<open>json_roundtrip v\<close> is \<^verbatim>\<open>JSON.parse(JSON.stringify(v))\<close>, what a later read of a file
  written from \<open>v\<close> sees: a property whose value is \<open>undefined\<close> or a function is left out,
  and such an element of an array becomes \<open>null\<close>.  (An object is taken to list each of its
  properties once, as every object the program builds does.)
\<close>

fun unserialisable :: "jsval \<Rightarrow> bool" where
  "unserialisable JUndefined = True"
| "unserialisable JBuiltin = True"
| "unserialisable v = False"

fun json_roundtrip :: "jsval \<Rightarrow> jsval" where
  "json_roundtrip (JArr xs) =
     JArr (map (\<lambda>x. if unserialisable x then JNull else json_roundtrip x) xs)"
| "json_roundtrip (JObj ps) =
     JObj (map (\<lambda>p. (fst p, json_roundtrip (snd p)))
            (filter (\<lambda>p. \<not> unserialisable (snd p)) ps))"
| "json_roundtrip v = v"

text \<open>The values a JSON text can denote.\<close>

fun is_json :: "jsval \<Rightarrow> bool" where
  "is_json JUndefined = False"
| "is_json JBuiltin = False"
| "is_json (JArr xs) = list_all is_json xs"
| "is_json (JObj ps) = list_all (\<lambda>p. is_json (snd p)) ps"
| "is_json v = True"

section \<open>The world of one process\<close>

text \<open>
  A file handed over by the drive manager: \<open>file_id\<close> is \<^verbatim>\<open>file.id\<close> and \<open>file_name\<close> is
  \<^verbatim>\<open>file.name\<close>.  The remaining fields of a file (folder path, timestamps, size, link) are
  read by \<open>formatTaskDescription\<close> only.
\<close>

record tagged_file =
  file_id :: string
  file_name :: string
  mimeType :: string
  tags :: "string list"

text \<open>
  The task index file \<^verbatim>\<open>vault/ClickUp_Task_Index.json\<close>: absent, present but unreadable,
  present with a text that is not JSON, or holding the value its text denotes.
\<close>

datatype disk = Absent | Unreadable | Corrupt | Holds jsval

text \<open>An HTTP request as axios sends it: the URL, the Authorization header, the body.\<close>

datatype request =
    Get string jsval
  | Post string jsval jsval
  | Put string jsval jsval

text \<open>
  A logger call.  \<open>LogError s e\<close> is \<^verbatim>\<open>logger.error(`s${e.message}`)\<close>, \<open>LogStack e\<close> is
  \<^verbatim>\<open>logger.error(e.stack)\<close>.
\<close>

datatype log_entry =
    LogInfo string
  | LogSuccess string
  | LogError string error
  | LogStack error

text \<open>
  The mutable state: \<open>clickup\<close> is \<^verbatim>\<open>credentials.clickup\<close> of vault.js (\<open>null\<close> until the
  environment is loaded), \<open>remote\<close> is the state of the task store behind its HTTP
  interface, \<open>requests\<close> records every request sent, in order, and \<open>taskCountCache\<close>,
  \<open>lastSyncTime\<close> are the module variables of clickup-manager.js.
\<close>

record 'r world =
  clickup :: jsval
  index_file :: disk
  remote :: 'r
  requests :: "request list"
  logs :: "log_entry list"
  taskCountCache :: "nat option"
  lastSyncTime :: "string option"

text \<open>
  What the program does not decide: \<open>http\<close> is the task store answering a request with
  \<^verbatim>\<open>response.data\<close> or making axios throw, \<open>now\<close> is the clock (\<^verbatim>\<open>new Date().toISOString()\<close>,
  taken not to advance within a pass), \<open>describe\<close> is the text \<open>formatTaskDescription\<close>
  builds for a file (it formats dates in the locale and sizes in floating point), \<open>fs_ok\<close>
  tells whether creating the vault directory and writing the index file succeed, and
  \<open>failed_write\<close> is what a write that fails leaves of the index file: the file as it was
  when the failure comes before the file is opened, an empty or partial text when it comes
  after (\<^verbatim>\<open>fs.writeFileSync\<close> truncates the file it opens, and the code writes in place).
\<close>

record 'r env =
  http :: "request \<Rightarrow> 'r \<Rightarrow> (error + jsval) \<times> 'r"
  now :: string
  describe :: "tagged_file \<Rightarrow> string"
  fs_ok :: bool
  failed_write :: "disk \<Rightarrow> disk"

subsection \<open>Sequencing, exceptions\<close>

type_synonym ('r, 'a) prog = "'r world \<Rightarrow> (error + 'a) \<times> 'r world"

definition ret :: "'a \<Rightarrow> ('r, 'a) prog" where
  "ret x w = (Inr x, w)"

definition throw :: "error \<Rightarrow> ('r, 'a) prog" where
  "throw e w = (Inl e, w)"

definition lift :: "error + 'a \<Rightarrow> ('r, 'a) prog" where
  "lift r w = (r, w)"

definition and_then :: "('r, 'a) prog \<Rightarrow> ('a \<Rightarrow> ('r, 'b) prog) \<Rightarrow> ('r, 'b) prog" where
  "and_then m f w = (case m w of (Inl e, w') \<Rightarrow> (Inl e, w') | (Inr x, w') \<Rightarrow> f x w')"

definition try_catch :: "('r, 'a) prog \<Rightarrow> (error \<Rightarrow> ('r, 'a) prog) \<Rightarrow> ('r, 'a) prog" where
  "try_catch m h w = (case m w of (Inl e, w') \<Rightarrow> h e w' | (Inr x, w') \<Rightarrow> (Inr x, w'))"

definition logger :: "log_entry \<Rightarrow> ('r, unit) prog" where
  "logger l w = (Inr (), w\<lparr>logs := logs w @ [l]\<rparr>)"

definition axios :: "'r env \<Rightarrow> request \<Rightarrow> ('r, jsval) prog" where
  "axios E req w =
     (case http E req (remote w) of
        (r, s) \<Rightarrow> (r, w\<lparr>remote := s, requests := requests w @ [req]\<rparr>))"

section \<open>vault.js: getClickUpCredentials\<close>

text \<open>
  \<^verbatim>\<open>
  function getClickUpCredentials() {
    return { apiKey: credentials.clickup.apiKey,
             workspaceId: credentials.clickup.workspaceId };
  }
  \<close>
  The read throws while \<open>credentials.clickup\<close> is still \<open>null\<close>.
\<close>

record creds =
  apiKey :: jsval
  workspaceId :: jsval

definition getClickUpCredentials :: "('r, creds) prog" where
  "getClickUpCredentials =
     and_then (\<lambda>w. (Inr (clickup w), w)) (\<lambda>c.
     and_then (lift (get_prop c ''apiKey'')) (\<lambda>k.
     and_then (lift (get_prop c ''workspaceId'')) (\<lambda>i.
     ret \<lparr>apiKey = k, workspaceId = i\<rparr>)))"

section \<open>clickup-manager.js\<close>

definition TASK_INDEX_PATH :: string where
  "TASK_INDEX_PATH = ''vault/ClickUp_Task_Index.json''"

definition api :: string where
  "api = ''https://api.clickup.com/api/v2''"

subsection \<open>getExistingTasks\<close>

text \<open>
  \<^verbatim>\<open>
  try {
    if (fs.existsSync(TASK_INDEX_PATH)) {
      const taskIndex = JSON.parse(fs.readFileSync(TASK_INDEX_PATH, 'utf8'));
      return taskIndex.tasks || [];
    }
    return [];
  } catch (error) {
    logger.error(`Failed to get existing tasks: ${error.message}`);
    return [];
  }
  \<close>
\<close>

definition read_index :: "('r, jsval option) prog" where
  "read_index w =
     (case index_file w of
        Absent \<Rightarrow> (Inr None, w)
      | Unreadable \<Rightarrow> (Inl IOError, w)
      | Corrupt \<Rightarrow> (Inl SyntaxError, w)
      | Holds v \<Rightarrow> (Inr (Some v), w))"

definition getExistingTasks :: "('r, jsval) prog" where
  "getExistingTasks =
     try_catch
       (and_then read_index (\<lambda>found.
          case found of
            Some taskIndex \<Rightarrow>
              and_then (lift (get_prop taskIndex ''tasks'')) (\<lambda>ts.
              ret (if truthy ts then ts else JArr []))
          | None \<Rightarrow> ret (JArr [])))
       (\<lambda>e. and_then (logger (LogError ''Failed to get existing tasks: '' e)) (\<lambda>_.
            ret (JArr [])))"

subsection \<open>createTaskMap\<close>

text \<open>
  \<^verbatim>\<open>
  const map = {};
  for (const task of tasks) {
    if (task.fileId) { map[task.fileId] = task; }
  }
  return map;
  \<close>
  The map is a plain object, so it inherits from \<open>Object.prototype\<close>: \<open>own\<close> holds its own
  properties, the latest assignment first, and \<open>proto\<close> the properties of the object its
  prototype was replaced by, if it was.  The key \<open>__proto__\<close> is not stored: the inherited
  setter makes the assigned object the prototype of the map (unless a data property of
  that name already hides the setter).  The value assigned is a task whose \<open>fileId\<close> was
  read as truthy, hence an object.
\<close>

record task_map =
  own :: "(string \<times> jsval) list"
  proto :: "(string \<times> jsval) list option"

definition object_prototype_keys :: "string list" where
  "object_prototype_keys =
     [''constructor'', ''__defineGetter__'', ''__defineSetter__'', ''hasOwnProperty'',
      ''__lookupGetter__'', ''__lookupSetter__'', ''isPrototypeOf'', ''propertyIsEnumerable'',
      ''toString'', ''valueOf'', ''__proto__'', ''toLocaleString'']"

definition proto_hidden :: "task_map \<Rightarrow> bool" where
  "proto_hidden m =
     (map_of (own m) ''__proto__'' \<noteq> None \<or>
      (case proto m of Some ps \<Rightarrow> map_of ps ''__proto__'' \<noteq> None | None \<Rightarrow> False))"

definition map_set :: "task_map \<Rightarrow> string \<Rightarrow> jsval \<Rightarrow> task_map" where
  "map_set m k v =
     (if k = ''__proto__'' \<and> \<not> proto_hidden m then
        (case v of JObj ps \<Rightarrow> m\<lparr>proto := Some ps\<rparr> | _ \<Rightarrow> m)
      else m\<lparr>own := (k, v) # own m\<rparr>)"

text \<open>\<^verbatim>\<open>map[k]\<close>: an own property, else one of the prototype chain, else \<open>undefined\<close>.\<close>

definition map_get :: "task_map \<Rightarrow> string \<Rightarrow> jsval" where
  "map_get m k =
     (case map_of (own m) k of
        Some v \<Rightarrow> v
      | None \<Rightarrow>
          (case proto m of
             None \<Rightarrow> if k \<in> set object_prototype_keys then JBuiltin else JUndefined
           | Some ps \<Rightarrow>
               (case map_of ps k of
                  Some v \<Rightarrow> v
                | None \<Rightarrow>
                    if k = ''__proto__'' then JObj ps
                    else if k \<in> set object_prototype_keys then JBuiltin
                    else JUndefined)))"

fun add_tasks :: "task_map \<Rightarrow> jsval list \<Rightarrow> error + task_map" where
  "add_tasks m [] = Inr m"
| "add_tasks m (task # ts) =
     (case get_prop task ''fileId'' of
        Inl e \<Rightarrow> Inl e
      | Inr fid \<Rightarrow> add_tasks (if truthy fid then map_set m (to_string fid) task else m) ts)"

definition createTaskMap :: "jsval \<Rightarrow> error + task_map" where
  "createTaskMap tasks =
     (case iterate tasks of
        Inl e \<Rightarrow> Inl e
      | Inr ts \<Rightarrow> add_tasks \<lparr>own = [], proto = None\<rparr> ts)"

subsection \<open>getOrCreateMainList\<close>

text \<open>
  The function resolves the space, the folder and the list by the same three steps each:
  \<^verbatim>\<open>
  const response = await axios.get(url, { headers: { 'Authorization': clickupCreds.apiKey } });
  let found = response.data.<collection>.find(x => x.name === <name>);
  if (!found) {
    const createResponse = await axios.post(url, <body>, { headers: ... });
    found = createResponse.data;
    logger.info(`Created ...: ${found.id}`);
  }
  \<close>
\<close>

definition find_or_create ::
  "'r env \<Rightarrow> creds \<Rightarrow> string \<Rightarrow> string \<Rightarrow> string \<Rightarrow> jsval \<Rightarrow> string \<Rightarrow> ('r, jsval) prog" where
  "find_or_create E clickupCreds url collection nm body created =
     and_then (axios E (Get url (apiKey clickupCreds))) (\<lambda>data.
     and_then (lift (get_prop data collection)) (\<lambda>items.
     and_then (lift (find_named nm items)) (\<lambda>found.
       if truthy found then ret found
       else
         and_then (axios E (Post url (apiKey clickupCreds) body)) (\<lambda>made.
         and_then (lift (get_prop made ''id'')) (\<lambda>i.
         and_then (logger (LogInfo (created @ to_string i))) (\<lambda>_.
         ret made))))))"

definition getOrCreateMainList :: "'r env \<Rightarrow> creds \<Rightarrow> ('r, jsval) prog" where
  "getOrCreateMainList E clickupCreds =
     try_catch
       (and_then
          (find_or_create E clickupCreds
             (api @ ''/team/'' @ to_string (workspaceId clickupCreds) @ ''/space'')
             ''spaces'' ''IMMORTAL STACK''
             (JObj [(''name'', JStr ''IMMORTAL STACK''), (''multiple_assignees'', JBool True)])
             ''Created IMMORTAL STACK space: '') (\<lambda>immortalSpace.
        and_then (lift (get_prop immortalSpace ''id'')) (\<lambda>spaceId.
        and_then
          (find_or_create E clickupCreds
             (api @ ''/space/'' @ to_string spaceId @ ''/folder'')
             ''folders'' ''Drive Files''
             (JObj [(''name'', JStr ''Drive Files'')])
             ''Created Drive Files folder: '') (\<lambda>driveFolder.
        and_then (lift (get_prop driveFolder ''id'')) (\<lambda>folderId.
          find_or_create E clickupCreds
             (api @ ''/folder/'' @ to_string folderId @ ''/list'')
             ''lists'' ''File Tasks''
             (JObj [(''name'', JStr ''File Tasks''),
                    (''content'', JStr ''Tasks mirrored from Google Drive files by IMMORTAL-CORD'')])
             ''Created File Tasks list: '')))))
       (\<lambda>e. and_then (logger (LogError ''Failed to get or create main list: '' e)) (\<lambda>_.
            throw e))"

subsection \<open>createTask, updateTask\<close>

text \<open>\<^verbatim>\<open>file.mimeType.split('/').pop()\<close>: what follows the last slash.\<close>

definition last_segment :: "string \<Rightarrow> string" where
  "last_segment s = rev (takeWhile (\<lambda>c. c \<noteq> CHR ''/'') (rev s))"

definition task_name :: "tagged_file \<Rightarrow> string" where
  "task_name f = file_name f @ '' ['' @ last_segment (mimeType f) @ '']''"

definition create_body :: "'r env \<Rightarrow> tagged_file \<Rightarrow> jsval" where
  "create_body E f =
     JObj [(''name'', JStr (task_name f)),
           (''description'', JStr (describe E f)),
           (''tags'', JArr (map JStr (tags f))),
           (''custom_fields'',
              JArr [JObj [(''name'', JStr ''File ID''), (''value'', JStr (file_id f))],
                    JObj [(''name'', JStr ''File Type''), (''value'', JStr (mimeType f))]])]"

definition update_body :: "'r env \<Rightarrow> tagged_file \<Rightarrow> jsval" where
  "update_body E f =
     JObj [(''name'', JStr (task_name f)),
           (''description'', JStr (describe E f)),
           (''tags'', JArr (map JStr (tags f)))]"

definition create_request :: "'r env \<Rightarrow> tagged_file \<Rightarrow> jsval \<Rightarrow> creds \<Rightarrow> request" where
  "create_request E f listId clickupCreds =
     Post (api @ ''/list/'' @ to_string listId @ ''/task'') (apiKey clickupCreds) (create_body E f)"

definition update_request :: "'r env \<Rightarrow> jsval \<Rightarrow> tagged_file \<Rightarrow> creds \<Rightarrow> request" where
  "update_request E taskId f clickupCreds =
     Put (api @ ''/task/'' @ to_string taskId) (apiKey clickupCreds) (update_body E f)"

text \<open>
  \<^verbatim>\<open>
  try {
    const response = await axios.post(`https://api.clickup.com/api/v2/list/${listId}/task`, ...);
    logger.info(`Created task for file: ${file.name}`);
    const task = response.data;
    task.fileId = file.id;
    return task;
  } catch (error) {
    logger.error(`Failed to create task for file ${file.name}: ${error.message}`);
    throw error;
  }
  \<close>
\<close>

definition createTask :: "'r env \<Rightarrow> tagged_file \<Rightarrow> jsval \<Rightarrow> creds \<Rightarrow> ('r, jsval) prog" where
  "createTask E f listId clickupCreds =
     try_catch
       (and_then (axios E (create_request E f listId clickupCreds)) (\<lambda>task.
        and_then (logger (LogInfo (''Created task for file: '' @ file_name f))) (\<lambda>_.
        lift (set_prop task ''fileId'' (JStr (file_id f))))))
       (\<lambda>e. and_then
              (logger (LogError (''Failed to create task for file '' @ file_name f @ '': '') e))
              (\<lambda>_. throw e))"

text \<open>\<open>updateTask\<close> is the same with \<^verbatim>\<open>axios.put(`https://api.clickup.com/api/v2/task/${taskId}`, ...)\<close>.\<close>

definition updateTask :: "'r env \<Rightarrow> jsval \<Rightarrow> tagged_file \<Rightarrow> creds \<Rightarrow> ('r, jsval) prog" where
  "updateTask E taskId f clickupCreds =
     try_catch
       (and_then (axios E (update_request E taskId f clickupCreds)) (\<lambda>task.
        and_then (logger (LogInfo (''Updated task for file: '' @ file_name f))) (\<lambda>_.
        lift (set_prop task ''fileId'' (JStr (file_id f))))))
       (\<lambda>e. and_then
              (logger (LogError (''Failed to update task for file '' @ file_name f @ '': '') e))
              (\<lambda>_. throw e))"

subsection \<open>saveTaskIndex\<close>

text \<open>
  \<^verbatim>\<open>
  try {
    if (!fs.existsSync(VAULT_DIR)) { fs.mkdirSync(VAULT_DIR, { recursive: true }); }
    const taskIndex = { generatedAt: new Date().toISOString(),
                        totalTasks: tasks.length, tasks: tasks };
    fs.writeFileSync(TASK_INDEX_PATH, JSON.stringify(taskIndex, null, 2));
    logger.info(`Task index saved to ${TASK_INDEX_PATH}`);
    return TASK_INDEX_PATH;
  } catch (error) {
    logger.error(`Failed to save task index: ${error.message}`);
    return null;
  }
  \<close>
  Creating the directory and writing the file are one step of the model, \<open>write_index\<close>.
  When \<open>fs_ok\<close> is false the step throws, and the file is then whatever the failed write
  left of it: nothing in the code keeps the previous file intact.
\<close>

definition write_index :: "'r env \<Rightarrow> jsval \<Rightarrow> ('r, unit) prog" where
  "write_index E taskIndex w =
     (if fs_ok E then (Inr (), w\<lparr>index_file := Holds (json_roundtrip taskIndex)\<rparr>)
      else (Inl IOError, w\<lparr>index_file := failed_write E (index_file w)\<rparr>))"

definition saveTaskIndex :: "'r env \<Rightarrow> jsval \<Rightarrow> ('r, jsval) prog" where
  "saveTaskIndex E tasks =
     try_catch
       (and_then (lift (get_length tasks)) (\<lambda>n.
        and_then
          (write_index E
             (JObj [(''generatedAt'', JStr (now E)), (''totalTasks'', n), (''tasks'', tasks)]))
          (\<lambda>_.
        and_then (logger (LogInfo (''Task index saved to '' @ TASK_INDEX_PATH))) (\<lambda>_.
        ret (JStr TASK_INDEX_PATH)))))
       (\<lambda>e. and_then (logger (LogError ''Failed to save task index: '' e)) (\<lambda>_.
            ret JNull))"

subsection \<open>mirrorFilesToClickUp\<close>

text \<open>
  The body of the loop, inside its own \<open>try\<close>:
  \<^verbatim>\<open>
  const existingTask = existingTaskMap[file.id];
  if (existingTask) {
    const updatedTask = await updateTask(existingTask.id, file, clickupCreds);
    results.push({ action: 'updated', fileId: file.id, taskId: existingTask.id,
                   task: updatedTask });
  } else {
    const newTask = await createTask(file, mainList.id, clickupCreds);
    results.push({ action: 'created', fileId: file.id, taskId: newTask.id, task: newTask });
  }
  \<close>
\<close>

definition sync_result :: "string \<Rightarrow> tagged_file \<Rightarrow> jsval \<Rightarrow> jsval \<Rightarrow> jsval" where
  "sync_result act f taskId task =
     JObj [(''action'', JStr act), (''fileId'', JStr (file_id f)),
           (''taskId'', taskId), (''task'', task)]"

definition process_file ::
  "'r env \<Rightarrow> task_map \<Rightarrow> jsval \<Rightarrow> creds \<Rightarrow> tagged_file \<Rightarrow> ('r, jsval) prog" where
  "process_file E existingTaskMap mainList clickupCreds f =
     (let existingTask = map_get existingTaskMap (file_id f) in
      if truthy existingTask then
        and_then (lift (get_prop existingTask ''id'')) (\<lambda>taskId.
        and_then (updateTask E taskId f clickupCreds) (\<lambda>updatedTask.
        ret (sync_result ''updated'' f taskId updatedTask)))
      else
        and_then (lift (get_prop mainList ''id'')) (\<lambda>listId.
        and_then (createTask E f listId clickupCreds) (\<lambda>newTask.
        and_then (lift (get_prop newTask ''id'')) (\<lambda>newId.
        ret (sync_result ''created'' f newId newTask)))))"

text \<open>
  The loop: \<^verbatim>\<open>for (const file of taggedFiles) { try { ... } catch (error) {
  logger.error(`Failed to process file ${file.name}: ${error.message}`); } }\<close>
\<close>

fun process_files ::
  "'r env \<Rightarrow> task_map \<Rightarrow> jsval \<Rightarrow> creds \<Rightarrow> tagged_file list \<Rightarrow> jsval list
     \<Rightarrow> ('r, jsval list) prog" where
  "process_files E existingTaskMap mainList clickupCreds [] results = ret results"
| "process_files E existingTaskMap mainList clickupCreds (f # fs) results =
     and_then
       (try_catch
          (and_then (process_file E existingTaskMap mainList clickupCreds f) (\<lambda>r.
           ret (results @ [r])))
          (\<lambda>e. and_then
                 (logger (LogError (''Failed to process file '' @ file_name f @ '': '') e))
                 (\<lambda>_. ret results)))
       (process_files E existingTaskMap mainList clickupCreds fs)"

text \<open>
  What precedes the loop:
  \<^verbatim>\<open>
  logger.info('Starting ClickUp mirroring operation...');
  const clickupCreds = vault.getClickUpCredentials();
  if (!clickupCreds || !clickupCreds.apiKey || !clickupCreds.workspaceId) {
    throw new Error('Missing ClickUp credentials');
  }
  const existingTasks = await getExistingTasks();
  const existingTaskMap = createTaskMap(existingTasks);
  const mainList = await getOrCreateMainList(clickupCreds);
  \<close>
\<close>

definition prepare_pass :: "'r env \<Rightarrow> ('r, creds \<times> task_map \<times> jsval) prog" where
  "prepare_pass E =
     and_then (logger (LogInfo ''Starting ClickUp mirroring operation...'')) (\<lambda>_.
     and_then getClickUpCredentials (\<lambda>clickupCreds.
     and_then
       (if \<not> truthy (apiKey clickupCreds) \<or> \<not> truthy (workspaceId clickupCreds)
        then throw (Error ''Missing ClickUp credentials'') else ret ()) (\<lambda>_.
     and_then getExistingTasks (\<lambda>existingTasks.
     and_then (lift (createTaskMap existingTasks)) (\<lambda>existingTaskMap.
     and_then (getOrCreateMainList E clickupCreds) (\<lambda>mainList.
     ret (clickupCreds, existingTaskMap, mainList)))))))"

text \<open>
  What follows it:
  \<^verbatim>\<open>
  await saveTaskIndex(results);
  taskCountCache = results.length;
  lastSyncTime = new Date();
  logger.success(`ClickUp mirroring complete. Created/updated ${results.length} tasks`);
  return results;
  \<close>
\<close>

definition finish_pass :: "'r env \<Rightarrow> jsval list \<Rightarrow> ('r, jsval list) prog" where
  "finish_pass E results =
     and_then (saveTaskIndex E (JArr results)) (\<lambda>_.
     and_then
       (\<lambda>w. (Inr (), w\<lparr>taskCountCache := Some (length results),
                        lastSyncTime := Some (now E)\<rparr>)) (\<lambda>_.
     and_then
       (logger (LogSuccess (''ClickUp mirroring complete. Created/updated ''
                             @ show_nat (length results) @ '' tasks''))) (\<lambda>_.
     ret results)))"

text \<open>
  The whole function: the \<open>try\<close> block, and the \<open>catch\<close> that logs and returns \<open>[]\<close>:
  \<^verbatim>\<open>
  } catch (error) {
    logger.error(`ClickUp mirroring failed: ${error.message}`);
    logger.error(error.stack);
    return [];
  }
  \<close>
\<close>

definition mirror_body :: "'r env \<Rightarrow> tagged_file list \<Rightarrow> ('r, jsval list) prog" where
  "mirror_body E taggedFiles =
     and_then (prepare_pass E) (\<lambda>(clickupCreds, existingTaskMap, mainList).
     and_then (process_files E existingTaskMap mainList clickupCreds taggedFiles []) (\<lambda>results.
     finish_pass E results))"

definition mirrorFilesToClickUp :: "'r env \<Rightarrow> tagged_file list \<Rightarrow> ('r, jsval list) prog" where
  "mirrorFilesToClickUp E taggedFiles =
     try_catch (mirror_body E taggedFiles)
       (\<lambda>e. and_then (logger (LogError ''ClickUp mirroring failed: '' e)) (\<lambda>_.
            and_then (logger (LogStack e)) (\<lambda>_.
            ret [])))"

section \<open>scheduler.js: convertMinutesToCron\<close>

text \<open>
  \<^verbatim>\<open>
  function convertMinutesToCron(minutes) {
    if (minutes < 1) { throw new Error('Minutes must be at least 1'); }
    if (minutes < 60) { return `*/${minutes} * * * *`; }
    else {
      const hours = Math.floor(minutes / 60);
      const remainingMinutes = minutes % 60;
      if (hours < 24) { return `${remainingMinutes} */${hours} * * *`; }
      else {
        const days = Math.floor(hours / 24);
        const remainingHours = hours % 24;
        if (days === 1) { return `${remainingMinutes} ${remainingHours} * * *`; }
        else { return `${remainingMinutes} ${remainingHours} */${days} * *`; }
      }
    }
  }
  \<close>
  The argument is an integer number of minutes that a JavaScript number holds exactly, at
  most \<open>2 ^ 53\<close>: JavaScript computes in double precision, and up to that bound the
  quotient \<^verbatim>\<open>minutes / 60\<close> rounded to a double has the floor \<open>minutes div 60\<close> (likewise
  \<^verbatim>\<open>hours / 24\<close>), \<open>%\<close> is exact, and a template literal prints the decimal digits.  Beyond
  the bound the model says nothing of the code, and no property below is stated there.  On
  the branches that divide, the argument is at least 60, so the truncating \<open>%\<close> of
  JavaScript and \<open>mod\<close> agree.
\<close>

definition convertMinutesToCron :: "int \<Rightarrow> error + string" where
  "convertMinutesToCron minutes =
     (if minutes < 1 then Inl (Error ''Minutes must be at least 1'')
      else if minutes < 60 then Inr (''*/'' @ show_int minutes @ '' * * * *'')
      else
        let hours = minutes div 60;
            remainingMinutes = minutes mod 60
        in if hours < 24 then
             Inr (show_int remainingMinutes @ '' */'' @ show_int hours @ '' * * *'')
           else
             let days = hours div 24;
                 remainingHours = hours mod 24
             in if days = 1 then
                  Inr (show_int remainingMinutes @ '' '' @ show_int remainingHours @ '' * * *'')
                else
                  Inr (show_int remainingMinutes @ '' '' @ show_int remainingHours
                       @ '' */'' @ show_int days @ '' * *''))"

section \<open>Notions used to state the properties\<close>

text \<open>\<open>prop_of v k\<close> is the value of \<^verbatim>\<open>v.k\<close> where that read does not throw.\<close>

definition prop_of :: "jsval \<Rightarrow> string \<Rightarrow> jsval" where
  "prop_of v k = (case get_prop v k of Inr x \<Rightarrow> x | Inl e \<Rightarrow> JUndefined)"

text \<open>
  The credentials are missing when \<open>credentials.clickup\<close> was never loaded, or when its
  \<open>apiKey\<close> or its \<open>workspaceId\<close> is absent or empty.
\<close>

definition credentials_missing :: "jsval \<Rightarrow> bool" where
  "credentials_missing c =
     (c = JNull \<or> \<not> truthy (prop_of c ''apiKey'') \<or> \<not> truthy (prop_of c ''workspaceId''))"

text \<open>
  \<open>item_outcomes\<close> tells, for each file of a pass in turn, whether its task-store operation
  succeeded; it follows the loop, each file meeting the world the files before it left.
\<close>

fun item_outcomes ::
  "'r env \<Rightarrow> task_map \<Rightarrow> jsval \<Rightarrow> creds \<Rightarrow> tagged_file list \<Rightarrow> 'r world \<Rightarrow> bool list" where
  "item_outcomes E m l c [] w = []"
| "item_outcomes E m l c (f # fs) w =
     (case process_file E m l c f w of
        (Inr r, w') \<Rightarrow> True # item_outcomes E m l c fs w'
      | (Inl e, w') \<Rightarrow>
          False # item_outcomes E m l c fs
            (w'\<lparr>logs := logs w' @
               [LogError (''Failed to process file '' @ file_name f @ '': '') e]\<rparr>))"

text \<open>The files of a pass whose operation succeeded, in the order of the input.\<close>

definition succeeded :: "tagged_file list \<Rightarrow> bool list \<Rightarrow> tagged_file list" where
  "succeeded fs outcomes = map fst (filter snd (zip fs outcomes))"

text \<open>A result record of file \<open>f\<close>: one the loop pushes, with action \<open>created\<close> or \<open>updated\<close>.\<close>

definition result_of :: "tagged_file \<Rightarrow> jsval \<Rightarrow> bool" where
  "result_of f r =
     (prop_of r ''fileId'' = JStr (file_id f) \<and>
      (prop_of r ''action'' = JStr ''created'' \<or> prop_of r ''action'' = JStr ''updated''))"

text \<open>
  The two halves of the index invariant, on the value a persisted index file holds:
  \<open>totalTasks\<close> is the length of \<open>tasks\<close>, and the \<open>fileId\<close>s of \<open>tasks\<close> are pairwise distinct.
\<close>

definition index_tasks :: "jsval \<Rightarrow> jsval list" where
  "index_tasks d = (case prop_of d ''tasks'' of JArr ts \<Rightarrow> ts | _ \<Rightarrow> [])"

definition count_matches :: "jsval \<Rightarrow> bool" where
  "count_matches d =
     (case prop_of d ''tasks'' of
        JArr ts \<Rightarrow> prop_of d ''totalTasks'' = JNum (int (length ts))
      | _ \<Rightarrow> False)"

definition ids_unique :: "jsval \<Rightarrow> bool" where
  "ids_unique d = distinct (map (\<lambda>t. prop_of t ''fileId'') (index_tasks d))"

text \<open>
  The entries of the lookup an index gives rise to: each task with a truthy \<open>fileId\<close>, under
  that \<open>fileId\<close> as a property key.
\<close>

definition index_entries :: "jsval list \<Rightarrow> (string \<times> jsval) list" where
  "index_entries ts =
     map (\<lambda>t. (to_string (prop_of t ''fileId''), t))
       (filter (\<lambda>t. truthy (prop_of t ''fileId'')) ts)"

text \<open>
  What the index holds for a file id: \<open>indexed ts k\<close> says that some task of the index has
  the \<open>fileId\<close> \<open>k\<close>, and \<open>indexed_task ts k\<close> is the last such task.  The \<open>fileId\<close>s of a
  well-formed index are strings (\<open>string_ids\<close>; a task may also have none).
\<close>

definition indexed :: "jsval list \<Rightarrow> string \<Rightarrow> bool" where
  "indexed ts k = list_ex (\<lambda>t. prop_of t ''fileId'' = JStr k) ts"

definition indexed_task :: "jsval list \<Rightarrow> string \<Rightarrow> jsval" where
  "indexed_task ts k =
     (case filter (\<lambda>t. prop_of t ''fileId'' = JStr k) ts of
        [] \<Rightarrow> JUndefined
      | t # rest \<Rightarrow> last (t # rest))"

definition string_ids :: "jsval list \<Rightarrow> bool" where
  "string_ids ts =
     list_all (\<lambda>t. case prop_of t ''fileId'' of JUndefined \<Rightarrow> True | JStr s \<Rightarrow> True | _ \<Rightarrow> False)
       ts"

text \<open>A program keeps the index when it leaves the index file as it found it.\<close>

definition keeps_index :: "('r, 'a) prog \<Rightarrow> bool" where
  "keeps_index p = (\<forall>w. index_file (snd (p w)) = index_file w)"

section \<open>A task store for closed instances\<close>

text \<open>
  The theorems below hold for every task store.  Their closed instances run the program
  against this small one: the workspace \<open>w1\<close> already has the space, the folder and the
  list; a task is created under the list \<open>l1\<close> with the next free id unless its name is one
  of \<open>rejected\<close>; a task is updated only under an id the store has issued; every other
  request is answered by an error.  The state of the store is the list of ids issued.
  Where the file system refuses the write, it does so before the index file is opened (the
  vault directory cannot be made), so the file stays as it was.
\<close>

definition stub_http :: "string list \<Rightarrow> request \<Rightarrow> string list \<Rightarrow> (error + jsval) \<times> string list" where
  "stub_http rejected req issued =
     (case req of
        Get url auth \<Rightarrow>
          if url = api @ ''/team/w1/space'' then
            (Inr (JObj [(''spaces'',
               JArr [JObj [(''id'', JStr ''s1''), (''name'', JStr ''IMMORTAL STACK'')]])]), issued)
          else if url = api @ ''/space/s1/folder'' then
            (Inr (JObj [(''folders'',
               JArr [JObj [(''id'', JStr ''d1''), (''name'', JStr ''Drive Files'')]])]), issued)
          else if url = api @ ''/folder/d1/list'' then
            (Inr (JObj [(''lists'',
               JArr [JObj [(''id'', JStr ''l1''), (''name'', JStr ''File Tasks'')]])]), issued)
          else (Inl (HttpError ''Request failed with status code 404''), issued)
      | Post url auth body \<Rightarrow>
          (case get_prop body ''name'' of
             Inr (JStr n) \<Rightarrow>
               if url = api @ ''/list/l1/task'' \<and> n \<notin> set rejected then
                 (let tid = ''t-'' @ show_nat (100 + length issued)
                  in (Inr (JObj [(''id'', JStr tid), (''name'', JStr n)]), issued @ [tid]))
               else (Inl (HttpError ''Request failed with status code 400''), issued)
           | _ \<Rightarrow> (Inl (HttpError ''Request failed with status code 400''), issued))
      | Put url auth body \<Rightarrow>
          if url \<in> set (map (\<lambda>tid. api @ ''/task/'' @ tid) issued) then
            (Inr (JObj [(''id'', JStr (drop (length (api @ ''/task/'')) url))]), issued)
          else (Inl (HttpError ''Request failed with status code 404''), issued))"

definition stub_env :: "string list \<Rightarrow> bool \<Rightarrow> string list env" where
  "stub_env rejected ok =
     \<lparr>http = stub_http rejected, now = ''2024-01-01T00:00:00.000Z'',
      describe = (\<lambda>f. ''File: '' @ file_name f), fs_ok = ok,
      failed_write = (\<lambda>d. d)\<rparr>"

definition fresh_world :: "string list world" where
  "fresh_world =
     \<lparr>clickup = JObj [(''apiKey'', JStr ''pk_1''), (''workspaceId'', JStr ''w1'')],
      index_file = Absent, remote = [], requests = [], logs = [],
      taskCountCache = None, lastSyncTime = None\<rparr>"

definition doc_a :: tagged_file where
  "doc_a = \<lparr>file_id = ''f1'', file_name = ''Doc A'', mimeType = ''text/plain'', tags = [''x'']\<rparr>"

definition doc_b :: tagged_file where
  "doc_b = \<lparr>file_id = ''f2'', file_name = ''Doc B'', mimeType = ''text/plain'', tags = []\<rparr>"

text \<open>A file whose id is the name of a property every object inherits.\<close>

definition constructor_doc :: tagged_file where
  "constructor_doc =
     \<lparr>file_id = ''constructor'', file_name = ''Doc C'', mimeType = ''text/plain'', tags = []\<rparr>"

text \<open>
  What the preparation of a pass leaves behind against this store: the credentials read,
  the list resolved by three requests, and the world with those requests recorded.
\<close>

definition ready_creds :: creds where
  "ready_creds = \<lparr>apiKey = JStr ''pk_1'', workspaceId = JStr ''w1''\<rparr>"

definition ready_list :: jsval where
  "ready_list = JObj [(''id'', JStr ''l1''), (''name'', JStr ''File Tasks'')]"

definition resolve_requests :: "request list" where
  "resolve_requests =
     [Get (api @ ''/team/w1/space'') (JStr ''pk_1''),
      Get (api @ ''/space/s1/folder'') (JStr ''pk_1''),
      Get (api @ ''/folder/d1/list'') (JStr ''pk_1'')]"

definition ready_world :: "string list world \<Rightarrow> string list world" where
  "ready_world w =
     w\<lparr>requests := requests w @ resolve_requests,
       logs := logs w @ [LogInfo ''Starting ClickUp mirroring operation...'']\<rparr>"

text \<open>A world whose index already knows the task \<open>t-100\<close> of the file \<open>f1\<close>.\<close>

definition known_task :: jsval where
  "known_task = JObj [(''id'', JStr ''t-100''), (''fileId'', JStr ''f1'')]"

definition indexed_world :: "string list world" where
  "indexed_world =
     fresh_world
       \<lparr>index_file :=
          Holds (JObj [(''generatedAt'', JStr ''2023-12-31T00:00:00.000Z''),
                       (''totalTasks'', JNum 1), (''tasks'', JArr [known_task])]),
        remote := [''t-100'']\<rparr>"

text \<open>Three passes over the same single file, each starting where the one before ended.\<close>

definition after_first_pass :: "string list world" where
  "after_first_pass = snd (mirrorFilesToClickUp (stub_env [] True) [doc_a] fresh_world)"

definition after_second_pass :: "string list world" where
  "after_second_pass = snd (mirrorFilesToClickUp (stub_env [] True) [doc_a] after_first_pass)"

section \<open>Basic facts\<close>

lemmas prog_defs = ret_def throw_def lift_def and_then_def try_catch_def logger_def axios_def

lemma and_then_InrE:
  assumes "and_then m f w = (Inr y, w')"
  obtains x w1 where "m w = (Inr x, w1)" and "f x w1 = (Inr y, w')"
  using assms by (auto simp: and_then_def split: prod.splits sum.splits)

lemma and_then_Inr:
  "m w = (Inr x, w1) \<Longrightarrow> and_then m f w = f x w1"
  by (simp add: and_then_def)

lemma and_then_Inl:
  "m w = (Inl e, w1) \<Longrightarrow> and_then m f w = (Inl e, w1)"
  by (simp add: and_then_def)

lemma and_then_lift_Inr [simp]: "and_then (lift (Inr x)) f = f x"
  by (rule ext) (simp add: and_then_def lift_def)

lemma ret_eq [simp]: "ret x w = (r, w') \<longleftrightarrow> r = Inr x \<and> w' = w"
  by (auto simp: ret_def)

lemma snd_lift [simp]: "snd (lift r w) = w"
  by (simp add: lift_def)

lemma snd_ret [simp]: "snd (ret x w) = w"
  by (simp add: ret_def)

lemma snd_and_then_pure:
  assumes "\<And>x w. snd (f x w) = w"
  shows "snd (and_then m f w) = snd (m w)"
  using assms by (auto simp: and_then_def split: prod.splits sum.splits)

lemma try_catch_InrE:
  assumes "try_catch m h w = (Inr y, w')"
  obtains "m w = (Inr y, w')" | e w1 where "m w = (Inl e, w1)" and "h e w1 = (Inr y, w')"
  using assms by (auto simp: try_catch_def split: prod.splits sum.splits)

lemma throw_eq [simp]: "throw e w = (r, w') \<longleftrightarrow> r = Inl e \<and> w' = w"
  by (auto simp: throw_def)

lemma lift_eq [simp]: "lift x w = (r, w') \<longleftrightarrow> x = r \<and> w' = w"
  by (auto simp: lift_def)

lemma truthy_get_prop: "truthy v \<Longrightarrow> get_prop v k = Inr (prop_of v k)"
  by (cases v) (simp_all add: prop_of_def)

subsection \<open>The lookup\<close>

lemma add_tasks_own:
  assumes "add_tasks m ts = Inr m'"
    and "''__proto__'' \<notin> fst ` set (index_entries ts)"
  shows "own m' = rev (index_entries ts) @ own m \<and> proto m' = proto m"
  using assms
proof (induction ts arbitrary: m)
  case Nil
  then show ?case by (simp add: index_entries_def)
next
  case (Cons t ts)
  from Cons.prems(1) obtain fid where fid: "get_prop t ''fileId'' = Inr fid"
    by (auto split: sum.splits)
  then have p: "prop_of t ''fileId'' = fid"
    by (simp add: prop_of_def)
  let ?m = "if truthy fid then map_set m (to_string fid) t else m"
  from Cons.prems(1) fid have rest: "add_tasks ?m ts = Inr m'"
    by simp
  from Cons.prems(2) have no: "''__proto__'' \<notin> fst ` set (index_entries ts)"
    by (auto simp: index_entries_def)
  from Cons.prems(2) p have key: "truthy fid \<Longrightarrow> to_string fid \<noteq> ''__proto__''"
    by (auto simp: index_entries_def)
  from Cons.IH [OF rest no] p key show ?case
    by (auto simp: index_entries_def map_set_def)
qed

lemma map_of_rev_last:
  "map_of (rev ps) k =
     (case filter (\<lambda>p. fst p = k) ps of [] \<Rightarrow> None | p # rest \<Rightarrow> Some (snd (last (p # rest))))"
proof (induction ps rule: rev_induct)
  case Nil
  show ?case by simp
next
  case (snoc p ps)
  then show ?case
    by (cases p) (auto split: list.splits)
qed

lemma string_id_key:
  assumes "case prop_of t ''fileId'' of JUndefined \<Rightarrow> True | JStr s \<Rightarrow> True | _ \<Rightarrow> False"
    and "k \<noteq> []"
  shows "(truthy (prop_of t ''fileId'') \<and> to_string (prop_of t ''fileId'') = k)
         \<longleftrightarrow> prop_of t ''fileId'' = JStr k"
  using assms by (cases "prop_of t ''fileId''") auto

lemma index_entries_filter:
  assumes "string_ids ts" and "k \<noteq> []"
  shows "filter (\<lambda>p. fst p = k) (index_entries ts) =
         map (\<lambda>t. (k, t)) (filter (\<lambda>t. prop_of t ''fileId'' = JStr k) ts)"
  using assms(1)
proof (induction ts)
  case Nil
  show ?case by (simp add: index_entries_def)
next
  case (Cons t ts)
  then have t: "case prop_of t ''fileId'' of JUndefined \<Rightarrow> True | JStr s \<Rightarrow> True | _ \<Rightarrow> False"
    and ts: "string_ids ts"
    by (simp_all add: string_ids_def)
  from Cons.IH [OF ts] string_id_key [OF t assms(2)] show ?case
    by (auto simp: index_entries_def)
qed

lemma indexed_filter: "indexed ts k \<longleftrightarrow> filter (\<lambda>t. prop_of t ''fileId'' = JStr k) ts \<noteq> []"
  by (induction ts) (simp_all add: indexed_def)

lemma lookup_by_index:
  assumes m: "createTaskMap (JArr ts) = Inr m"
    and ids: "string_ids ts"
    and np: "\<not> indexed ts ''__proto__''"
    and k: "k \<noteq> []" "k \<notin> set object_prototype_keys"
  shows "map_get m k = indexed_task ts k \<and> (truthy (map_get m k) \<longleftrightarrow> indexed ts k)"
proof -
  have "filter (\<lambda>p. fst p = ''__proto__'') (index_entries ts) =
        map (\<lambda>t. (''__proto__'', t)) (filter (\<lambda>t. prop_of t ''fileId'' = JStr ''__proto__'') ts)"
    by (rule index_entries_filter [OF ids]) simp
  also have "filter (\<lambda>t. prop_of t ''fileId'' = JStr ''__proto__'') ts = []"
    using np by (simp only: indexed_filter) simp
  finally have "filter (\<lambda>p. fst p = ''__proto__'') (index_entries ts) = []"
    by simp
  then have no: "''__proto__'' \<notin> fst ` set (index_entries ts)"
    by (simp only: filter_empty_conv) force
  from m have "add_tasks \<lparr>own = [], proto = None\<rparr> ts = Inr m"
    by (simp add: createTaskMap_def)
  from add_tasks_own [OF this no]
  have own: "own m = rev (index_entries ts)" and proto: "proto m = None"
    by simp_all
  let ?hits = "filter (\<lambda>t. prop_of t ''fileId'' = JStr k) ts"
  have fk: "filter (\<lambda>p. fst p = k) (index_entries ts) = map (\<lambda>t. (k, t)) ?hits"
    by (rule index_entries_filter [OF ids k(1)])
  show ?thesis
  proof (cases ?hits)
    case Nil
    with fk have "map_of (rev (index_entries ts)) k = None"
      by (simp add: map_of_rev_last)
    with own proto k(2) have "map_get m k = JUndefined"
      by (simp add: map_get_def)
    moreover from Nil have "indexed_task ts k = JUndefined" "\<not> indexed ts k"
      by (simp_all add: indexed_task_def indexed_filter)
    ultimately show ?thesis by simp
  next
    case (Cons t rest)
    with fk have "map_of (rev (index_entries ts)) k = Some (last (t # rest))"
      by (simp add: map_of_rev_last last_map)
    with own have get: "map_get m k = last (t # rest)"
      by (simp add: map_get_def)
    have "last (t # rest) \<in> set ?hits"
      unfolding Cons by (rule last_in_set) simp
    then have "prop_of (last (t # rest)) ''fileId'' = JStr k"
      by simp
    then have "truthy (last (t # rest))"
      by (cases "last (t # rest)") (simp_all add: prop_of_def)
    moreover from Cons have "indexed_task ts k = last (t # rest)" "indexed ts k"
      by (simp_all add: indexed_task_def indexed_filter)
    ultimately show ?thesis using get by simp
  qed
qed

subsection \<open>One file of the loop\<close>

lemma process_file_result:
  assumes "process_file E m l c f w = (Inr r, w1)"
  shows "result_of f r"
proof (cases "truthy (map_get m (file_id f))")
  case True
  with assms show ?thesis
    unfolding process_file_def Let_def
    by (auto elim!: and_then_InrE simp: result_of_def sync_result_def prop_of_def)
next
  case False
  with assms show ?thesis
    unfolding process_file_def Let_def
    by (auto elim!: and_then_InrE simp: result_of_def sync_result_def prop_of_def)
qed

lemma createTask_requests:
  "requests (snd (createTask E f lid c w)) = requests w @ [create_request E f lid c]"
  by (simp add: createTask_def prog_defs split: prod.splits sum.splits)

lemma updateTask_requests:
  "requests (snd (updateTask E tid f c w)) = requests w @ [update_request E tid f c]"
  by (simp add: updateTask_def prog_defs split: prod.splits sum.splits)

lemma process_file_requests:
  assumes "get_prop l ''id'' = Inr lid"
  shows "requests (snd (process_file E m l c f w)) =
         requests w @
           [if truthy (map_get m (file_id f))
            then update_request E (prop_of (map_get m (file_id f)) ''id'') f c
            else create_request E f (prop_of l ''id'') c]"
proof (cases "truthy (map_get m (file_id f))")
  case True
  then show ?thesis
    by (simp add: process_file_def Let_def truthy_get_prop snd_and_then_pure
        updateTask_requests)
next
  case False
  with assms show ?thesis
    by (simp add: process_file_def Let_def prop_of_def snd_and_then_pure
        createTask_requests)
qed

subsection \<open>The loop\<close>

lemma process_files_Cons_ok:
  "process_file E m l c f w = (Inr r, w1) \<Longrightarrow>
   process_files E m l c (f # fs) acc w = process_files E m l c fs (acc @ [r]) w1"
  by (simp add: prog_defs)

lemma process_files_Cons_fail:
  "process_file E m l c f w = (Inl e, w1) \<Longrightarrow>
   process_files E m l c (f # fs) acc w =
   process_files E m l c fs acc
     (w1\<lparr>logs := logs w1 @
        [LogError (''Failed to process file '' @ file_name f @ '': '') e]\<rparr>)"
  by (simp add: prog_defs)

lemma succeeded_Nil [simp]: "succeeded [] bs = []"
  by (simp add: succeeded_def)

lemma succeeded_Cons [simp]:
  "succeeded (f # fs) (b # bs) = (if b then f # succeeded fs bs else succeeded fs bs)"
  by (simp add: succeeded_def)

lemma process_files_results_gen:
  assumes step: "\<And>f w r w1. process_file E m l c f w = (Inr r, w1) \<Longrightarrow> P f r"
  shows "\<exists>new w'. process_files E m l c fs acc w = (Inr (acc @ new), w')
     \<and> list_all2 P (succeeded fs (item_outcomes E m l c fs w)) new"
proof (induction fs arbitrary: acc w)
  case Nil
  show ?case by (simp add: ret_def)
next
  case (Cons f fs)
  obtain r w1 where p: "process_file E m l c f w = (r, w1)"
    by (cases "process_file E m l c f w")
  show ?case
  proof (cases r)
    case (Inl e)
    let ?w = "w1\<lparr>logs := logs w1 @
                [LogError (''Failed to process file '' @ file_name f @ '': '') e]\<rparr>"
    from Cons.IH [of acc ?w] obtain new w' where
      "process_files E m l c fs acc ?w = (Inr (acc @ new), w')"
      "list_all2 P (succeeded fs (item_outcomes E m l c fs ?w)) new"
      by blast
    with p Inl show ?thesis
      by (simp add: process_files_Cons_fail del: process_files.simps)
  next
    case (Inr x)
    from Cons.IH [of "acc @ [x]" w1] obtain new w' where
      "process_files E m l c fs (acc @ [x]) w1 = (Inr ((acc @ [x]) @ new), w')"
      "list_all2 P (succeeded fs (item_outcomes E m l c fs w1)) new"
      by blast
    moreover from p Inr have "P f x"
      by (simp add: step)
    ultimately show ?thesis using p Inr
      by (simp add: process_files_Cons_ok del: process_files.simps)
  qed
qed

lemma process_files_results:
  "\<exists>new w'. process_files E m l c fs acc w = (Inr (acc @ new), w')
     \<and> list_all2 result_of (succeeded fs (item_outcomes E m l c fs w)) new"
  by (rule process_files_results_gen) (rule process_file_result)

lemma process_files_requests:
  assumes "get_prop l ''id'' = Inr lid"
  shows "requests (snd (process_files E m l c fs acc w)) =
         requests w @
           map (\<lambda>f. if truthy (map_get m (file_id f))
                    then update_request E (prop_of (map_get m (file_id f)) ''id'') f c
                    else create_request E f (prop_of l ''id'') c) fs"
proof (induction fs arbitrary: acc w)
  case Nil
  show ?case by (simp add: ret_def)
next
  case (Cons f fs)
  obtain r w1 where p: "process_file E m l c f w = (r, w1)"
    by (cases "process_file E m l c f w")
  from process_file_requests [OF assms, of E m c f w] p
  have rq: "requests w1 = requests w @
              [if truthy (map_get m (file_id f))
               then update_request E (prop_of (map_get m (file_id f)) ''id'') f c
               else create_request E f (prop_of l ''id'') c]"
    by simp
  show ?case
  proof (cases r)
    case (Inl e)
    with p rq Cons.IH show ?thesis
      by (simp add: process_files_Cons_fail del: process_files.simps)
  next
    case (Inr x)
    with p rq Cons.IH show ?thesis
      by (simp add: process_files_Cons_ok del: process_files.simps)
  qed
qed

subsection \<open>The pass\<close>

lemma find_or_create_has_id:
  assumes "find_or_create E c url coll nm body created w = (Inr v, w')"
  shows "\<exists>i. get_prop v ''id'' = Inr i"
  using assms unfolding find_or_create_def
  by (auto elim!: and_then_InrE simp: truthy_get_prop split: if_splits)

lemma getOrCreateMainList_has_id:
  assumes "getOrCreateMainList E c w = (Inr l, w')"
  shows "\<exists>i. get_prop l ''id'' = Inr i"
  using assms unfolding getOrCreateMainList_def
  by (auto elim!: try_catch_InrE and_then_InrE dest: find_or_create_has_id)

lemma prepare_pass_has_id:
  assumes "prepare_pass E w = (Inr (c, m, l), w1)"
  shows "\<exists>i. get_prop l ''id'' = Inr i"
  using assms unfolding prepare_pass_def
  by (auto elim!: and_then_InrE dest: getOrCreateMainList_has_id)

lemma getExistingTasks_logs:
  "fst (getExistingTasks (w\<lparr>logs := x\<rparr>)) = fst (getExistingTasks w)"
  by (simp add: getExistingTasks_def read_index_def prog_defs
      split: disk.splits sum.splits option.splits)

lemma getClickUpCredentials_world:
  "getClickUpCredentials w = (r, w1) \<Longrightarrow> w1 = w"
  by (auto simp: getClickUpCredentials_def prog_defs split: sum.splits)

lemma prepare_pass_lookup:
  assumes "prepare_pass E w = (Inr (c, m, l), w1)"
  shows "\<exists>ts. fst (getExistingTasks w) = Inr ts \<and> createTaskMap ts = Inr m"
proof -
  let ?w = "w\<lparr>logs := logs w @ [LogInfo ''Starting ClickUp mirroring operation...'']\<rparr>"
  from assms obtain ts w2 where "getExistingTasks ?w = (Inr ts, w2)" "createTaskMap ts = Inr m"
    unfolding prepare_pass_def
    by (auto elim!: and_then_InrE simp: logger_def split: if_splits
        dest!: getClickUpCredentials_world)
  then show ?thesis
    using getExistingTasks_logs [where w = w] by (metis fst_conv)
qed

lemma saveTaskIndex_eq:
  "saveTaskIndex E (JArr rs) w =
     (if fs_ok E then
        (Inr (JStr TASK_INDEX_PATH),
         w\<lparr>index_file :=
              Holds (json_roundtrip
                (JObj [(''generatedAt'', JStr (now E)),
                       (''totalTasks'', JNum (int (length rs))), (''tasks'', JArr rs)])),
           logs := logs w @ [LogInfo (''Task index saved to '' @ TASK_INDEX_PATH)]\<rparr>)
      else
        (Inr JNull,
         w\<lparr>index_file := failed_write E (index_file w),
           logs := logs w @ [LogError ''Failed to save task index: '' IOError]\<rparr>))"
  by (simp add: saveTaskIndex_def write_index_def prog_defs)

lemma finish_pass_eq:
  "finish_pass E rs w =
     (Inr rs,
      (snd (saveTaskIndex E (JArr rs) w))
        \<lparr>taskCountCache := Some (length rs), lastSyncTime := Some (now E),
         logs := logs (snd (saveTaskIndex E (JArr rs) w)) @
            [LogSuccess (''ClickUp mirroring complete. Created/updated ''
                           @ show_nat (length rs) @ '' tasks'')]\<rparr>)"
  by (simp add: finish_pass_def saveTaskIndex_eq prog_defs)

lemma mirror_after_prepare:
  assumes "prepare_pass E w = (Inr (c, m, l), w1)"
    and "process_files E m l c files [] w1 = (Inr rs, w2)"
  shows "mirrorFilesToClickUp E files w = finish_pass E rs w2"
  using assms
  by (simp add: mirrorFilesToClickUp_def mirror_body_def try_catch_def and_then_Inr
      finish_pass_eq)

lemma mirror_prepare_fails:
  assumes "prepare_pass E w = (Inl e, w1)"
  shows "mirrorFilesToClickUp E files w =
     (Inr [], w1\<lparr>logs := logs w1 @ [LogError ''ClickUp mirroring failed: '' e, LogStack e]\<rparr>)"
  using assms
  by (simp add: mirrorFilesToClickUp_def mirror_body_def try_catch_def and_then_Inl
      logger_def and_then_def)

subsection \<open>What a pass leaves alone\<close>

lemma keeps_index_ret: "keeps_index (ret x)"
  by (simp add: keeps_index_def)

lemma keeps_index_throw: "keeps_index (throw e)"
  by (simp add: keeps_index_def throw_def)

lemma keeps_index_lift: "keeps_index (lift r)"
  by (simp add: keeps_index_def)

lemma keeps_index_logger: "keeps_index (logger l)"
  by (simp add: keeps_index_def logger_def)

lemma keeps_index_axios: "keeps_index (axios E req)"
  by (simp add: keeps_index_def axios_def split: prod.splits)

lemma keeps_index_and_then:
  assumes "keeps_index m" and "\<And>x. keeps_index (f x)"
  shows "keeps_index (and_then m f)"
  unfolding keeps_index_def
proof
  fix w
  obtain r w1 where m: "m w = (r, w1)" by (cases "m w")
  with assms(1) have "index_file w1 = index_file w"
    by (auto simp: keeps_index_def dest: spec [of _ w])
  with assms(2) m show "index_file (snd (and_then m f w)) = index_file w"
    by (cases r) (auto simp: and_then_def keeps_index_def)
qed

lemma keeps_index_try_catch:
  assumes "keeps_index m" and "\<And>e. keeps_index (h e)"
  shows "keeps_index (try_catch m h)"
  unfolding keeps_index_def
proof
  fix w
  obtain r w1 where m: "m w = (r, w1)" by (cases "m w")
  with assms(1) have "index_file w1 = index_file w"
    by (auto simp: keeps_index_def dest: spec [of _ w])
  with assms(2) m show "index_file (snd (try_catch m h w)) = index_file w"
    by (cases r) (auto simp: try_catch_def keeps_index_def)
qed

lemma keeps_index_if:
  "keeps_index p \<Longrightarrow> keeps_index q \<Longrightarrow> keeps_index (if b then p else q)"
  by simp

lemmas keeps_index_intros =
  keeps_index_and_then keeps_index_try_catch keeps_index_if keeps_index_ret keeps_index_throw
  keeps_index_lift keeps_index_logger keeps_index_axios

lemma keeps_index_getClickUpCredentials: "keeps_index getClickUpCredentials"
  unfolding getClickUpCredentials_def
  by (intro keeps_index_intros) (simp add: keeps_index_def)

lemma keeps_index_getExistingTasks: "keeps_index getExistingTasks"
  unfolding getExistingTasks_def
  apply (intro keeps_index_intros)
   apply (simp add: keeps_index_def read_index_def split: disk.splits)
  apply (simp split: option.splits)
  apply (intro conjI allI impI keeps_index_intros)
  done

lemma keeps_index_find_or_create: "keeps_index (find_or_create E c url coll nm body created)"
  unfolding find_or_create_def
  by (intro keeps_index_intros)

lemma keeps_index_getOrCreateMainList: "keeps_index (getOrCreateMainList E c)"
  unfolding getOrCreateMainList_def
  by (intro keeps_index_intros keeps_index_find_or_create)

lemma keeps_index_prepare_pass: "keeps_index (prepare_pass E)"
  unfolding prepare_pass_def
  by (intro keeps_index_intros keeps_index_getClickUpCredentials keeps_index_getExistingTasks
      keeps_index_getOrCreateMainList)

lemma keeps_index_process_file: "keeps_index (process_file E m l c f)"
  unfolding process_file_def Let_def createTask_def updateTask_def
  by (intro keeps_index_intros)

lemma keeps_index_process_files: "keeps_index (process_files E m l c fs acc)"
proof (induction fs arbitrary: acc)
  case Nil
  show ?case by (simp add: keeps_index_ret)
next
  case (Cons f fs)
  show ?case
    unfolding process_files.simps
    by (intro keeps_index_intros keeps_index_process_file Cons.IH)
qed

lemma axios_fs_ok [simp]: "axios (E\<lparr>fs_ok := b\<rparr>) = axios E"
  by (intro ext) (simp add: axios_def)

lemma find_or_create_fs_ok [simp]:
  "find_or_create (E\<lparr>fs_ok := b\<rparr>) = find_or_create E"
  by (intro ext) (simp add: find_or_create_def cong: if_cong)

lemma prepare_pass_fs_ok [simp]: "prepare_pass (E\<lparr>fs_ok := b\<rparr>) = prepare_pass E"
  by (simp add: prepare_pass_def getOrCreateMainList_def)

lemma process_file_fs_ok [simp]: "process_file (E\<lparr>fs_ok := b\<rparr>) = process_file E"
  by (intro ext)
    (simp add: process_file_def Let_def createTask_def updateTask_def create_request_def
      update_request_def create_body_def update_body_def cong: if_cong)

lemma process_files_fs_ok [simp]:
  "process_files (E\<lparr>fs_ok := b\<rparr>) m l c fs = process_files E m l c fs"
proof (induction fs)
  case Nil
  show ?case by (intro ext) simp
next
  case (Cons f fs)
  show ?case by (intro ext) (simp add: Cons.IH)
qed

subsection \<open>The index written\<close>

lemma saved_index:
  "json_roundtrip
     (JObj [(''generatedAt'', JStr g), (''totalTasks'', JNum n), (''tasks'', JArr rs)]) =
   JObj [(''generatedAt'', JStr g), (''totalTasks'', JNum n),
         (''tasks'', JArr (map (\<lambda>x. if unserialisable x then JNull else json_roundtrip x) rs))]"
  by simp

lemma succeeded_one_failure:
  "k < length fs \<Longrightarrow>
   succeeded fs ((replicate (length fs) True)[k := False]) = take k fs @ drop (Suc k) fs"
proof (induction fs arbitrary: k)
  case Nil
  then show ?case by simp
next
  case (Cons f fs)
  have all: "succeeded gs (replicate (length gs) True) = gs" for gs :: "tagged_file list"
    by (induction gs) simp_all
  show ?case
  proof (cases k)
    case 0
    then show ?thesis by (simp add: all)
  next
    case (Suc j)
    with Cons show ?thesis by simp
  qed
qed

subsection \<open>Failing preparation, reading the index\<close>

lemma prepare_pass_missing_credentials:
  assumes "credentials_missing (clickup w)"
  shows "prepare_pass E w =
     (Inl (if clickup w = JNull \<or> clickup w = JUndefined then TypeError
           else Error ''Missing ClickUp credentials''),
      w\<lparr>logs := logs w @ [LogInfo ''Starting ClickUp mirroring operation...'']\<rparr>)"
proof (cases "clickup w = JNull \<or> clickup w = JUndefined")
  case True
  then show ?thesis
    by (auto simp: prepare_pass_def getClickUpCredentials_def prog_defs)
next
  case False
  then obtain k i where "get_prop (clickup w) ''apiKey'' = Inr k"
    "get_prop (clickup w) ''workspaceId'' = Inr i"
    by (cases "clickup w") auto
  with False assms show ?thesis
    by (auto simp: prepare_pass_def getClickUpCredentials_def prog_defs credentials_missing_def prop_of_def)
qed

lemma mirror_empty: "fst (mirrorFilesToClickUp E [] w) = Inr []"
proof -
  obtain p w1 where prep: "prepare_pass E w = (p, w1)"
    by (cases "prepare_pass E w")
  show ?thesis
  proof (cases p)
    case (Inl e)
    with prep show ?thesis by (simp add: mirror_prepare_fails [of _ _ e w1])
  next
    case (Inr cml)
    obtain c m l where "cml = (c, m, l)" by (cases cml)
    with prep Inr have "prepare_pass E w = (Inr (c, m, l), w1)" by simp
    from mirror_after_prepare [OF this, of "[]" "[]" w1] show ?thesis
      by (simp add: finish_pass_eq)
  qed
qed

lemma mirror_body_fails:
  assumes "mirror_body E files w = (Inl e, w1)"
  shows "fst (mirrorFilesToClickUp E files w) = Inr []"
  using assms by (simp add: mirrorFilesToClickUp_def prog_defs)

lemma not_unserialisable: "is_json v \<Longrightarrow> \<not> unserialisable v"
  by (cases v) auto

lemma json_roundtrip_id: "is_json v \<Longrightarrow> json_roundtrip v = v"
proof (induction v rule: json_roundtrip.induct)
  case (1 xs)
  then show ?case
    by (auto simp: list_all_iff not_unserialisable intro!: map_idI)
next
  case (2 ps)
  then show ?case
    by (auto simp: list_all_iff not_unserialisable filter_id_conv intro!: map_idI)
qed simp_all

lemma roundtrip_tasks_id:
  "list_all is_json ts \<Longrightarrow>
   map (\<lambda>x. if unserialisable x then JNull else json_roundtrip x) ts = ts"
  by (auto simp: list_all_iff not_unserialisable json_roundtrip_id intro!: map_idI)

lemma getExistingTasks_Holds:
  "index_file w = Holds d \<Longrightarrow> get_prop d ''tasks'' = Inr (JArr ts) \<Longrightarrow>
   getExistingTasks w = (Inr (JArr ts), w)"
  by (simp add: getExistingTasks_def read_index_def prog_defs)

lemma getExistingTasks_Absent:
  "index_file w = Absent \<Longrightarrow> getExistingTasks w = (Inr (JArr []), w)"
  by (simp add: getExistingTasks_def read_index_def prog_defs)

subsection \<open>The ids of the saved entries\<close>

lemma map_of_roundtrip_str:
  "map_of ps k = Some (JStr s) \<Longrightarrow>
   map_of (map (\<lambda>p. (fst p, json_roundtrip (snd p)))
            (filter (\<lambda>p. \<not> unserialisable (snd p)) ps)) k = Some (JStr s)"
  by (induction ps) (auto split: if_splits)

lemma prop_of_roundtrip_str:
  assumes "prop_of r k = JStr s"
  shows "prop_of (if unserialisable r then JNull else json_roundtrip r) k = JStr s"
proof (cases r)
  case (JObj ps)
  with assms have "map_of ps k = Some (JStr s)"
    by (auto simp: prop_of_def split: option.splits)
  with JObj show ?thesis
    by (simp add: prop_of_def map_of_roundtrip_str)
qed (use assms in \<open>simp_all add: prop_of_def\<close>)

lemma saved_file_ids:
  assumes "list_all2 result_of fs rs"
  shows "map (\<lambda>t. prop_of t ''fileId'')
           (map (\<lambda>x. if unserialisable x then JNull else json_roundtrip x) rs)
         = map (\<lambda>f. JStr (file_id f)) fs"
  using assms
  by (induction rule: list_all2_induct) (simp_all add: result_of_def prop_of_roundtrip_str)

lemma distinct_succeeded:
  "distinct (map file_id fs) \<Longrightarrow> distinct (map file_id (succeeded fs os))"
proof -
  have sub: "set (succeeded fs os) \<subseteq> set fs" for fs :: "tagged_file list" and os
    by (auto simp: succeeded_def dest: set_zip_leftD)
  show "distinct (map file_id fs) \<Longrightarrow> distinct (map file_id (succeeded fs os))"
  proof (induction fs arbitrary: os)
    case Nil
    then show ?case by simp
  next
    case (Cons f fs)
    show ?case
    proof (cases os)
      case Nil
      then show ?thesis by (simp add: succeeded_def)
    next
      case (Cons b bs)
      with Cons.prems Cons.IH [of bs] sub [of fs bs] show ?thesis
        by auto
    qed
  qed
qed

subsection \<open>What a saved entry lacks\<close>

lemma process_file_result_no_id:
  assumes "process_file E m l c f w = (Inr r, w1)"
  shows "prop_of (if unserialisable r then JNull else json_roundtrip r) ''id'' = JUndefined"
proof (cases "truthy (map_get m (file_id f))")
  case True
  with assms show ?thesis
    unfolding process_file_def Let_def
    by (auto elim!: and_then_InrE simp: sync_result_def prop_of_def)
next
  case False
  with assms show ?thesis
    unfolding process_file_def Let_def
    by (auto elim!: and_then_InrE simp: sync_result_def prop_of_def)
qed

lemma list_all2_right: "list_all2 (\<lambda>x y. Q y) xs ys \<Longrightarrow> list_all Q ys"
  by (induction rule: list_all2_induct) auto

section \<open>Verified properties\<close>

subsection \<open>Partial failure\<close>

text \<open>
  Claim C1, as the code has it.  The claim expects one result per file, the failed one with
  action \<open>failed\<close>.  The loop pushes nothing for a file whose operation fails (its \<open>catch\<close>
  only logs), so with two files of which the second is rejected the pass returns one
  result, not two.
\<close>

theorem partial_failure_counterexample:
  "item_outcomes (stub_env [''Doc B [plain]''] True) \<lparr>own = [], proto = None\<rparr> ready_list
     ready_creds [doc_a, doc_b] (ready_world fresh_world) = [True, False]
   \<and> \<not> (\<exists>rs. fst (mirrorFilesToClickUp (stub_env [''Doc B [plain]''] True) [doc_a, doc_b]
                    fresh_world) = Inr rs
              \<and> length rs = 2)"
proof -
  have "item_outcomes (stub_env [''Doc B [plain]''] True) \<lparr>own = [], proto = None\<rparr> ready_list
     ready_creds [doc_a, doc_b] (ready_world fresh_world) = [True, False]"
    by code_simp
  moreover have "fst (mirrorFilesToClickUp (stub_env [''Doc B [plain]''] True) [doc_a, doc_b] fresh_world)
        = Inr [sync_result ''created'' doc_a (JStr ''t-100'')
                 (JObj [(''id'', JStr ''t-100''), (''name'', JStr ''Doc A [plain]''),
                        (''fileId'', JStr ''f1'')])]"
    by code_simp
  ultimately show ?thesis by simp
qed

text \<open>
  Claim C1, amended.  When, of the \<open>N\<close> files of a prepared pass, exactly the operation of
  the file at position \<open>k\<close> fails, the pass returns \<open>N - 1\<close> results, one for each other file
  in the order of the input, each with action \<open>created\<close> or \<open>updated\<close> and the id of its
  file, and none for the failed file; the index then written has \<open>N - 1\<close> entries, and its
  \<open>totalTasks\<close> says so.
\<close>

theorem partial_failure_isolation:
  assumes prep: "prepare_pass E w = (Inr (c, m, l), w1)"
    and k: "k < length files"
    and out: "item_outcomes E m l c files w1 = (replicate (length files) True)[k := False]"
  shows "\<exists>rs. fst (mirrorFilesToClickUp E files w) = Inr rs
      \<and> length rs = length files - 1
      \<and> list_all2 result_of (take k files @ drop (Suc k) files) rs
      \<and> (fs_ok E \<longrightarrow>
           (\<exists>d. index_file (snd (mirrorFilesToClickUp E files w)) = Holds d
              \<and> length (index_tasks d) = length files - 1 \<and> count_matches d))"
proof -
  obtain rs w2 where loop: "process_files E m l c files [] w1 = (Inr rs, w2)"
    and res: "list_all2 result_of (succeeded files (item_outcomes E m l c files w1)) rs"
    using process_files_results [of E m l c files "[]" w1] by auto
  from res out k have all2: "list_all2 result_of (take k files @ drop (Suc k) files) rs"
    by (simp add: succeeded_one_failure)
  then have len: "length rs = length files - 1"
    using k by (auto dest!: list_all2_lengthD)
  show ?thesis
    using all2 len
    by (simp add: mirror_after_prepare [OF prep loop] finish_pass_eq saveTaskIndex_eq
        index_tasks_def count_matches_def prop_of_def)
qed

theorem partial_failure_isolation_witness:
  "prepare_pass (stub_env [''Doc B [plain]''] True) fresh_world =
     (Inr (ready_creds, \<lparr>own = [], proto = None\<rparr>, ready_list), ready_world fresh_world)
   \<and> (1::nat) < length [doc_a, doc_b]
   \<and> item_outcomes (stub_env [''Doc B [plain]''] True) \<lparr>own = [], proto = None\<rparr> ready_list
        ready_creds [doc_a, doc_b] (ready_world fresh_world)
      = (replicate (length [doc_a, doc_b]) True)[1 := False]
   \<and> (\<exists>rs. fst (mirrorFilesToClickUp (stub_env [''Doc B [plain]''] True) [doc_a, doc_b]
                  fresh_world) = Inr rs
         \<and> length rs = length [doc_a, doc_b] - 1
         \<and> list_all2 result_of (take 1 [doc_a, doc_b] @ drop (Suc 1) [doc_a, doc_b]) rs
         \<and> (fs_ok (stub_env [''Doc B [plain]''] True) \<longrightarrow>
              (\<exists>d. index_file (snd (mirrorFilesToClickUp (stub_env [''Doc B [plain]''] True)
                                      [doc_a, doc_b] fresh_world)) = Holds d
                 \<and> length (index_tasks d) = length [doc_a, doc_b] - 1 \<and> count_matches d)))"
proof -
  have prep: "prepare_pass (stub_env [''Doc B [plain]''] True) fresh_world =
     (Inr (ready_creds, \<lparr>own = [], proto = None\<rparr>, ready_list), ready_world fresh_world)"
    by code_simp
  have k: "(1::nat) < length [doc_a, doc_b]"
    by simp
  have out: "item_outcomes (stub_env [''Doc B [plain]''] True) \<lparr>own = [], proto = None\<rparr>
        ready_list ready_creds [doc_a, doc_b] (ready_world fresh_world)
      = (replicate (length [doc_a, doc_b]) True)[1 := False]"
    by code_simp
  from partial_failure_isolation [OF prep k out] prep k out show ?thesis
    by blast
qed

subsection \<open>Create or update\<close>

text \<open>
  Once a pass is prepared, \<open>m\<close> is the lookup \<open>createTaskMap\<close> builds from the loaded index,
  and the pass sends exactly one request per file, in the order of the input: the update
  request when \<^verbatim>\<open>existingTaskMap[file.id]\<close> is truthy, the create request otherwise.
\<close>

lemma pass_requests:
  assumes "prepare_pass E w = (Inr (c, m, l), w1)"
  shows "(\<exists>ts. fst (getExistingTasks w) = Inr ts \<and> createTaskMap ts = Inr m)
       \<and> requests (snd (mirrorFilesToClickUp E files w)) =
           requests w1 @
             map (\<lambda>f. if truthy (map_get m (file_id f))
                      then update_request E (prop_of (map_get m (file_id f)) ''id'') f c
                      else create_request E f (prop_of l ''id'') c) files"
proof -
  obtain rs w2 where loop: "process_files E m l c files [] w1 = (Inr rs, w2)"
    using process_files_results [of E m l c files "[]" w1] by auto
  obtain lid where "get_prop l ''id'' = Inr lid"
    using prepare_pass_has_id [OF assms] by blast
  from process_files_requests [OF this, of E m c files "[]" w1] loop
  have "requests w2 = requests w1 @
           map (\<lambda>f. if truthy (map_get m (file_id f))
                    then update_request E (prop_of (map_get m (file_id f)) ''id'') f c
                    else create_request E f (prop_of l ''id'') c) files"
    by simp
  then show ?thesis
    using prepare_pass_lookup [OF assms]
    by (simp add: mirror_after_prepare [OF assms loop] finish_pass_eq saveTaskIndex_eq)
qed

text \<open>
  Against the contents of the index: let the loaded index be well formed (its \<open>fileId\<close>s
  strings, none of them \<open>__proto__\<close>), and let no file of the pass have an empty id or an id
  that names a property every object inherits.  Then a file whose id the index holds gets
  the update request only, under the \<open>id\<close> of the last task the index holds for it, and a
  file whose id the index does not hold gets the create request only, under the resolved
  list; in the order of the input, and whatever happened to the files before it.
\<close>

theorem classification_by_index:
  assumes prep: "prepare_pass E w = (Inr (c, m, l), w1)"
    and loaded: "fst (getExistingTasks w) = Inr (JArr ts)"
    and ids: "string_ids ts"
    and np: "\<not> indexed ts ''__proto__''"
    and files: "list_all (\<lambda>f. file_id f \<noteq> [] \<and> file_id f \<notin> set object_prototype_keys) files"
  shows "requests (snd (mirrorFilesToClickUp E files w)) =
           requests w1 @
             map (\<lambda>f. if indexed ts (file_id f)
                      then update_request E (prop_of (indexed_task ts (file_id f)) ''id'') f c
                      else create_request E f (prop_of l ''id'') c) files"
proof -
  from pass_requests [OF prep, of files] loaded
  have m: "createTaskMap (JArr ts) = Inr m"
    and rq: "requests (snd (mirrorFilesToClickUp E files w)) =
           requests w1 @
             map (\<lambda>f. if truthy (map_get m (file_id f))
                      then update_request E (prop_of (map_get m (file_id f)) ''id'') f c
                      else create_request E f (prop_of l ''id'') c) files"
    by auto
  have "(if truthy (map_get m (file_id f))
         then update_request E (prop_of (map_get m (file_id f)) ''id'') f c
         else create_request E f (prop_of l ''id'') c) =
        (if indexed ts (file_id f)
         then update_request E (prop_of (indexed_task ts (file_id f)) ''id'') f c
         else create_request E f (prop_of l ''id'') c)"
    if "f \<in> set files" for f
  proof -
    from that files have k: "file_id f \<noteq> []" "file_id f \<notin> set object_prototype_keys"
      by (auto simp: list_all_iff)
    note lk = lookup_by_index [OF m ids np k]
    have g: "map_get m (file_id f) = indexed_task ts (file_id f)"
      by (rule conjunct1 [OF lk])
    have t: "truthy (map_get m (file_id f)) = indexed ts (file_id f)"
      by (rule conjunct2 [OF lk])
    show ?thesis
      by (subst t) (simp add: g cong: if_cong)
  qed
  then show ?thesis
    unfolding rq by (simp cong: map_cong)
qed

theorem classification_by_index_witness:
  "prepare_pass (stub_env [] True) indexed_world =
     (Inr (ready_creds, \<lparr>own = [(''f1'', known_task)], proto = None\<rparr>, ready_list),
      ready_world indexed_world)
   \<and> fst (getExistingTasks indexed_world) = Inr (JArr [known_task])
   \<and> string_ids [known_task]
   \<and> \<not> indexed [known_task] ''__proto__''
   \<and> list_all (\<lambda>f. file_id f \<noteq> [] \<and> file_id f \<notin> set object_prototype_keys) [doc_a, doc_b]
   \<and> requests (snd (mirrorFilesToClickUp (stub_env [] True) [doc_a, doc_b] indexed_world)) =
       resolve_requests @
         [Put (api @ ''/task/t-100'') (JStr ''pk_1'') (update_body (stub_env [] True) doc_a),
          Post (api @ ''/list/l1/task'') (JStr ''pk_1'') (create_body (stub_env [] True) doc_b)]"
proof -
  have prep: "prepare_pass (stub_env [] True) indexed_world =
     (Inr (ready_creds, \<lparr>own = [(''f1'', known_task)], proto = None\<rparr>, ready_list),
      ready_world indexed_world)"
    by code_simp
  have loaded: "fst (getExistingTasks indexed_world) = Inr (JArr [known_task])"
    by code_simp
  have ids: "string_ids [known_task]"
    by code_simp
  have np: "\<not> indexed [known_task] ''__proto__''"
    by code_simp
  have files: "list_all (\<lambda>f. file_id f \<noteq> [] \<and> file_id f \<notin> set object_prototype_keys)
                 [doc_a, doc_b]"
    by code_simp
  have "requests (snd (mirrorFilesToClickUp (stub_env [] True) [doc_a, doc_b] indexed_world)) =
        requests (ready_world indexed_world) @
          map (\<lambda>f. if indexed [known_task] (file_id f)
                   then update_request (stub_env [] True)
                          (prop_of (indexed_task [known_task] (file_id f)) ''id'') f ready_creds
                   else create_request (stub_env [] True) f (prop_of ready_list ''id'')
                          ready_creds) [doc_a, doc_b]"
    by (rule classification_by_index [OF prep loaded ids np files])
  also have "\<dots> = resolve_requests @
         [Put (api @ ''/task/t-100'') (JStr ''pk_1'') (update_body (stub_env [] True) doc_a),
          Post (api @ ''/list/l1/task'') (JStr ''pk_1'') (create_body (stub_env [] True) doc_b)]"
    by code_simp
  finally show ?thesis
    using prep loaded ids np files by simp
qed

text \<open>
  Claim C2 expects the create request for every file whose id the loaded index does not
  hold.  The code means to check "if task already exists for this file" in "a map of file
  ID to task", but the map is a plain object and \<^verbatim>\<open>existingTaskMap[file.id]\<close> also finds
  what the object inherits.  With no index at all, the file with id \<open>constructor\<close> is taken
  for one that has a task: the pass sends \<open>PUT /task/undefined\<close> for it, no create request,
  and returns no result.
\<close>

theorem inherited_name_taken_for_entry:
  "fst (getExistingTasks fresh_world) = Inr (JArr [])
   \<and> \<not> indexed [] (file_id constructor_doc)
   \<and> requests (snd (mirrorFilesToClickUp (stub_env [] True) [constructor_doc] fresh_world)) =
       resolve_requests @
         [Put (api @ ''/task/undefined'') (JStr ''pk_1'')
            (update_body (stub_env [] True) constructor_doc)]
   \<and> fst (mirrorFilesToClickUp (stub_env [] True) [constructor_doc] fresh_world) = Inr []"
  by code_simp

subsection \<open>A second pass over the same files\<close>

text \<open>
  The index is saved from the result records of a pass, which carry the id of the task as
  \<open>taskId\<close> and inside \<open>task\<close>, never as \<open>id\<close>: whatever the task store, no entry of an
  index that a pass has written has an \<open>id\<close>.
\<close>

lemma saved_entries_lack_id:
  assumes prep: "prepare_pass E w = (Inr (c, m, l), w1)" and ok: "fs_ok E"
  shows "\<exists>d. index_file (snd (mirrorFilesToClickUp E files w)) = Holds d
           \<and> list_all (\<lambda>t. prop_of t ''id'' = JUndefined) (index_tasks d)"
proof -
  let ?P = "\<lambda>f r. prop_of (if unserialisable r then JNull else json_roundtrip r) ''id''
                     = JUndefined"
  obtain rs w2 where loop: "process_files E m l c files [] w1 = (Inr rs, w2)"
    and res: "list_all2 ?P (succeeded files (item_outcomes E m l c files w1)) rs"
    using process_files_results_gen [of E m l c ?P files "[]" w1]
      process_file_result_no_id [of E m l c]
    by auto
  from res
  have "list_all (\<lambda>r. prop_of (if unserialisable r then JNull else json_roundtrip r) ''id''
                       = JUndefined) rs"
    by (rule list_all2_right)
  then have "list_all (\<lambda>t. prop_of t ''id'' = JUndefined)
               (map (\<lambda>x. if unserialisable x then JNull else json_roundtrip x) rs)"
    by (induction rs) simp_all
  then show ?thesis
    using ok
    by (simp add: mirror_after_prepare [OF prep loop] finish_pass_eq saveTaskIndex_eq
        index_tasks_def prop_of_def)
qed

text \<open>
  Claim C3 expects a second pass over an unchanged list to report every file as \<open>updated\<close>
  and to create nothing.  The code sets out to do so (it loads the saved index "to avoid
  duplicates" and updates "the existing task" under \<open>existingTask.id\<close>), but the entry it
  finds has no \<open>id\<close>, so the update goes to the task \<open>undefined\<close>.  Against a store that
  updates only tasks it has issued: the first pass over one file creates task \<open>t-100\<close> and
  saves it; the second pass over the same file sends \<open>PUT /task/undefined\<close>, is refused,
  returns no result and saves an empty index; the third pass creates a second task,
  \<open>t-101\<close>, for the same file.
\<close>

theorem second_pass_loses_the_task:
  "fst (mirrorFilesToClickUp (stub_env [] True) [doc_a] fresh_world) =
     Inr [sync_result ''created'' doc_a (JStr ''t-100'')
            (JObj [(''id'', JStr ''t-100''), (''name'', JStr ''Doc A [plain]''),
                   (''fileId'', JStr ''f1'')])]
   \<and> index_file after_first_pass =
       Holds (JObj [(''generatedAt'', JStr ''2024-01-01T00:00:00.000Z''),
                    (''totalTasks'', JNum 1),
                    (''tasks'',
                     JArr [sync_result ''created'' doc_a (JStr ''t-100'')
                             (JObj [(''id'', JStr ''t-100''), (''name'', JStr ''Doc A [plain]''),
                                    (''fileId'', JStr ''f1'')])])])
   \<and> fst (mirrorFilesToClickUp (stub_env [] True) [doc_a] after_first_pass) = Inr []
   \<and> drop 4 (requests after_second_pass) =
       resolve_requests @
         [Put (api @ ''/task/undefined'') (JStr ''pk_1'') (update_body (stub_env [] True) doc_a)]
   \<and> index_file after_second_pass =
       Holds (JObj [(''generatedAt'', JStr ''2024-01-01T00:00:00.000Z''),
                    (''totalTasks'', JNum 0), (''tasks'', JArr [])])
   \<and> fst (mirrorFilesToClickUp (stub_env [] True) [doc_a] after_second_pass) =
       Inr [sync_result ''created'' doc_a (JStr ''t-101'')
              (JObj [(''id'', JStr ''t-101''), (''name'', JStr ''Doc A [plain]''),
                     (''fileId'', JStr ''f1'')])]"
  by code_simp

subsection \<open>The index invariant\<close>

text \<open>
  Claim C4, as the code has it.  The claim expects the \<open>fileId\<close>s of a saved index to be
  pairwise distinct for every list of results the reconciler can pass to \<open>saveTaskIndex\<close>.
  Neither the loop nor \<open>saveTaskIndex\<close> removes or rejects a duplicate: a pass over a list
  that names the same file twice creates two tasks and saves two entries with one \<open>fileId\<close>.
\<close>

theorem index_invariant_counterexample:
  "\<exists>d. index_file (snd (mirrorFilesToClickUp (stub_env [] True) [doc_a, doc_a] fresh_world))
          = Holds d
       \<and> \<not> ids_unique d"
proof -
  let ?d = "JObj [(''generatedAt'', JStr ''2024-01-01T00:00:00.000Z''),
                  (''totalTasks'', JNum 2),
                  (''tasks'',
                   JArr [sync_result ''created'' doc_a (JStr ''t-100'')
                           (JObj [(''id'', JStr ''t-100''), (''name'', JStr ''Doc A [plain]''),
                                  (''fileId'', JStr ''f1'')]),
                         sync_result ''created'' doc_a (JStr ''t-101'')
                           (JObj [(''id'', JStr ''t-101''), (''name'', JStr ''Doc A [plain]''),
                                  (''fileId'', JStr ''f1'')])])]"
  have "index_file (snd (mirrorFilesToClickUp (stub_env [] True) [doc_a, doc_a] fresh_world))
          = Holds ?d"
    by code_simp
  moreover have "\<not> ids_unique ?d"
    by code_simp
  ultimately show ?thesis by blast
qed

text \<open>
  Claim C4, amended.  After every successful save, \<open>totalTasks\<close> is the length of \<open>tasks\<close>,
  for every list of records; and after the save of a prepared pass the \<open>fileId\<close>s of
  \<open>tasks\<close> are pairwise distinct provided the ids of the files given to the pass are.
\<close>

theorem index_invariant_after_save:
  assumes "fs_ok E"
  shows "(\<exists>d. index_file (snd (saveTaskIndex E (JArr rs) w)) = Holds d
            \<and> count_matches d \<and> length (index_tasks d) = length rs)
       \<and> (prepare_pass E w = (Inr (c, m, l), w1) \<longrightarrow>
           (\<exists>d. index_file (snd (mirrorFilesToClickUp E files w)) = Holds d
              \<and> count_matches d
              \<and> (distinct (map file_id files) \<longrightarrow> ids_unique d)))"
proof -
  have save: "\<exists>d. index_file (snd (saveTaskIndex E (JArr rs) w)) = Holds d
            \<and> count_matches d \<and> length (index_tasks d) = length rs"
    using assms by (simp add: saveTaskIndex_eq count_matches_def index_tasks_def prop_of_def)
  have pass: "\<exists>d. index_file (snd (mirrorFilesToClickUp E files w)) = Holds d
              \<and> count_matches d
              \<and> (distinct (map file_id files) \<longrightarrow> ids_unique d)"
    if prep: "prepare_pass E w = (Inr (c, m, l), w1)"
  proof -
    obtain rs' w2 where loop: "process_files E m l c files [] w1 = (Inr rs', w2)"
      and res: "list_all2 result_of (succeeded files (item_outcomes E m l c files w1)) rs'"
      using process_files_results [of E m l c files "[]" w1] by auto
    have "distinct (map (\<lambda>t. prop_of t ''fileId'')
            (map (\<lambda>x. if unserialisable x then JNull else json_roundtrip x) rs'))"
      if "distinct (map file_id files)"
    proof -
      from that have "distinct (map file_id (succeeded files (item_outcomes E m l c files w1)))"
        by (rule distinct_succeeded)
      then have "distinct (map (\<lambda>f. JStr (file_id f))
                   (succeeded files (item_outcomes E m l c files w1)))"
        by (simp add: distinct_map inj_on_def)
      then show ?thesis
        by (simp only: saved_file_ids [OF res])
    qed
    then show ?thesis
      using assms
      by (simp add: mirror_after_prepare [OF prep loop] finish_pass_eq saveTaskIndex_eq
          count_matches_def index_tasks_def ids_unique_def prop_of_def)
  qed
  from save pass show ?thesis by blast
qed

theorem index_invariant_after_save_witness:
  "fs_ok (stub_env [] True)
   \<and> prepare_pass (stub_env [] True) fresh_world =
       (Inr (ready_creds, \<lparr>own = [], proto = None\<rparr>, ready_list), ready_world fresh_world)
   \<and> distinct (map file_id [doc_a, doc_b])
   \<and> (\<exists>d. index_file (snd (mirrorFilesToClickUp (stub_env [] True) [doc_a, doc_b] fresh_world))
             = Holds d
          \<and> count_matches d \<and> ids_unique d)"
proof -
  have ok: "fs_ok (stub_env [] True)"
    by (simp add: stub_env_def)
  have prep: "prepare_pass (stub_env [] True) fresh_world =
       (Inr (ready_creds, \<lparr>own = [], proto = None\<rparr>, ready_list), ready_world fresh_world)"
    by code_simp
  have d: "distinct (map file_id [doc_a, doc_b])"
    by (simp add: doc_a_def doc_b_def)
  from index_invariant_after_save [OF ok, of _ _ ready_creds "\<lparr>own = [], proto = None\<rparr>"
         ready_list "ready_world fresh_world" "[doc_a, doc_b]"]
       ok prep d
  show ?thesis by blast
qed

subsection \<open>Loading the index\<close>

text \<open>
  Claim C5.  \<open>getExistingTasks\<close> returns for every state of the disk, never throwing: when
  the index file is missing, cannot be read, is not JSON, or denotes a value whose \<open>tasks\<close>
  cannot be read, it returns the empty list.
\<close>

theorem getExistingTasks_never_fails:
  "(\<exists>ts. fst (getExistingTasks w) = Inr ts)
   \<and> (index_file w = Absent \<or> index_file w = Unreadable \<or> index_file w = Corrupt
        \<or> (\<exists>v e. index_file w = Holds v \<and> get_prop v ''tasks'' = Inl e)
      \<longrightarrow> fst (getExistingTasks w) = Inr (JArr []))"
  by (auto simp: getExistingTasks_def read_index_def prog_defs
      split: disk.splits sum.splits option.splits)

theorem getExistingTasks_never_fails_witness:
  "fst (getExistingTasks (fresh_world\<lparr>index_file := Corrupt\<rparr>)) = Inr (JArr [])
   \<and> fst (getExistingTasks (fresh_world\<lparr>index_file := Unreadable\<rparr>)) = Inr (JArr [])
   \<and> fst (getExistingTasks fresh_world) = Inr (JArr [])
   \<and> fst (getExistingTasks (fresh_world\<lparr>index_file := Holds JNull\<rparr>)) = Inr (JArr [])"
  using getExistingTasks_never_fails [of "fresh_world\<lparr>index_file := Corrupt\<rparr>"]
    getExistingTasks_never_fails [of "fresh_world\<lparr>index_file := Unreadable\<rparr>"]
    getExistingTasks_never_fails [of fresh_world]
    getExistingTasks_never_fails [of "fresh_world\<lparr>index_file := Holds JNull\<rparr>"]
  by (simp add: fresh_world_def)

subsection \<open>A failed write of the index\<close>

text \<open>
  Claim C6, as the code has it.  The claim expects a failed write of the index to be
  reported to the caller.  \<open>saveTaskIndex\<close> catches the failure, logs it and returns \<open>null\<close>,
  and \<open>mirrorFilesToClickUp\<close> does not look at what it returns: with a file system that
  refuses the write, the caller gets no error and the very results of a pass whose write
  succeeded.
\<close>

theorem index_write_failure_counterexample:
  "\<not> (\<exists>e. fst (mirrorFilesToClickUp (stub_env [] False) [doc_a] fresh_world) = Inl e)
   \<and> fst (mirrorFilesToClickUp (stub_env [] False) [doc_a] fresh_world)
     = fst (mirrorFilesToClickUp (stub_env [] True) [doc_a] fresh_world)
   \<and> index_file (snd (mirrorFilesToClickUp (stub_env [] False) [doc_a] fresh_world)) = Absent"
proof -
  have "fst (mirrorFilesToClickUp (stub_env [] False) [doc_a] fresh_world)
        = Inr [sync_result ''created'' doc_a (JStr ''t-100'')
                 (JObj [(''id'', JStr ''t-100''), (''name'', JStr ''Doc A [plain]''),
                        (''fileId'', JStr ''f1'')])]"
    by code_simp
  moreover have "fst (mirrorFilesToClickUp (stub_env [] True) [doc_a] fresh_world)
        = Inr [sync_result ''created'' doc_a (JStr ''t-100'')
                 (JObj [(''id'', JStr ''t-100''), (''name'', JStr ''Doc A [plain]''),
                        (''fileId'', JStr ''f1'')])]"
    by code_simp
  moreover have
    "index_file (snd (mirrorFilesToClickUp (stub_env [] False) [doc_a] fresh_world)) = Absent"
    by code_simp
  ultimately show ?thesis by simp
qed

text \<open>
  Claim C6, amended.  Whether the index can be written changes nothing in what the pass
  returns, and a pass whose write fails still returns normally.  The failure is caught
  inside \<open>saveTaskIndex\<close>, which logs it and returns \<open>null\<close>, leaving of the file what the
  failed write left.  Once a pass is prepared, it returns the results of its loop,
  whichever files failed; when the write then fails, the failure is in the log of the pass
  and nowhere in what it returns.
\<close>

theorem index_write_failure_not_reported:
  "fst (mirrorFilesToClickUp (E\<lparr>fs_ok := False\<rparr>) files w)
     = fst (mirrorFilesToClickUp (E\<lparr>fs_ok := True\<rparr>) files w)
   \<and> (\<exists>rs. fst (mirrorFilesToClickUp (E\<lparr>fs_ok := False\<rparr>) files w) = Inr rs)
   \<and> saveTaskIndex (E\<lparr>fs_ok := False\<rparr>) (JArr tasks) w0 =
       (Inr JNull,
        w0\<lparr>index_file := failed_write E (index_file w0),
           logs := logs w0 @ [LogError ''Failed to save task index: '' IOError]\<rparr>)
   \<and> (\<forall>c m l w1. prepare_pass E w = (Inr (c, m, l), w1) \<longrightarrow>
         fst (mirrorFilesToClickUp E files w) = fst (process_files E m l c files [] w1)
         \<and> (\<not> fs_ok E \<longrightarrow>
              LogError ''Failed to save task index: '' IOError
                \<in> set (logs (snd (mirrorFilesToClickUp E files w)))
              \<and> index_file (snd (mirrorFilesToClickUp E files w))
                  = failed_write E (index_file w)))"
proof -
  have save: "saveTaskIndex (E\<lparr>fs_ok := False\<rparr>) (JArr tasks) w0 =
       (Inr JNull,
        w0\<lparr>index_file := failed_write E (index_file w0),
           logs := logs w0 @ [LogError ''Failed to save task index: '' IOError]\<rparr>)"
    by (simp add: saveTaskIndex_eq)
  obtain p w1 where prep: "prepare_pass E w = (p, w1)"
    by (cases "prepare_pass E w")
  have kp: "index_file w1 = index_file w"
    using keeps_index_prepare_pass [of E] prep by (auto simp: keeps_index_def dest: spec [of _ w])
  show ?thesis
  proof (cases p)
    case (Inl e)
    with prep save show ?thesis
      by (simp add: mirror_prepare_fails [of _ _ e w1])
  next
    case (Inr cml)
    obtain c m l where cml: "cml = (c, m, l)" by (cases cml)
    obtain rs w2 where loop: "process_files E m l c files [] w1 = (Inr rs, w2)"
      using process_files_results [of E m l c files "[]" w1] by auto
    have kl: "index_file w2 = index_file w1"
      using keeps_index_process_files [of E m l c files "[]"] loop
      by (auto simp: keeps_index_def dest: spec [of _ w1])
    from prep Inr cml have prep': "prepare_pass E w = (Inr (c, m, l), w1)" by simp
    have "mirrorFilesToClickUp (E\<lparr>fs_ok := b\<rparr>) files w = finish_pass (E\<lparr>fs_ok := b\<rparr>) rs w2"
      for b
      by (rule mirror_after_prepare [of _ _ c m l w1]) (simp_all add: prep' loop)
    moreover have "mirrorFilesToClickUp E files w = finish_pass E rs w2"
      by (rule mirror_after_prepare [OF prep' loop])
    ultimately show ?thesis
      using kp kl prep' loop save by (simp add: finish_pass_eq saveTaskIndex_eq)
  qed
qed

theorem index_write_failure_not_reported_witness:
  "prepare_pass (stub_env [''Doc B [plain]''] False) fresh_world =
     (Inr (ready_creds, \<lparr>own = [], proto = None\<rparr>, ready_list), ready_world fresh_world)
   \<and> \<not> fs_ok (stub_env [''Doc B [plain]''] False)
   \<and> fst (mirrorFilesToClickUp (stub_env [''Doc B [plain]''] False) [doc_a, doc_b] fresh_world)
     = fst (process_files (stub_env [''Doc B [plain]''] False) \<lparr>own = [], proto = None\<rparr>
              ready_list ready_creds [doc_a, doc_b] [] (ready_world fresh_world))
   \<and> LogError ''Failed to save task index: '' IOError
       \<in> set (logs (snd (mirrorFilesToClickUp (stub_env [''Doc B [plain]''] False)
                            [doc_a, doc_b] fresh_world)))"
proof -
  have prep: "prepare_pass (stub_env [''Doc B [plain]''] False) fresh_world =
     (Inr (ready_creds, \<lparr>own = [], proto = None\<rparr>, ready_list), ready_world fresh_world)"
    by code_simp
  have nok: "\<not> fs_ok (stub_env [''Doc B [plain]''] False)"
    by (simp add: stub_env_def)
  from index_write_failure_not_reported
         [of "stub_env [''Doc B [plain]''] False" "[doc_a, doc_b]" fresh_world]
       prep nok
  show ?thesis by blast
qed

subsection \<open>Missing credentials\<close>

text \<open>
  Claim C7, as the code has it.  The claim expects a pass without credentials to fail with
  a configuration error surfaced to the caller.  The error is thrown inside the \<open>try\<close> of
  \<open>mirrorFilesToClickUp\<close> and caught by its own \<open>catch\<close>: the caller gets no error, with
  credentials never loaded and with an empty \<open>apiKey\<close> alike.
\<close>

theorem missing_credentials_counterexample:
  "\<not> (\<exists>e. fst (mirrorFilesToClickUp (stub_env [] True) [doc_a]
                  (fresh_world\<lparr>clickup := JNull\<rparr>)) = Inl e)
   \<and> \<not> (\<exists>e. fst (mirrorFilesToClickUp (stub_env [] True) [doc_a]
                  (fresh_world\<lparr>clickup :=
                     JObj [(''apiKey'', JStr []), (''workspaceId'', JStr ''w1'')]\<rparr>)) = Inl e)"
proof -
  have "fst (mirrorFilesToClickUp (stub_env [] True) [doc_a]
               (fresh_world\<lparr>clickup := JNull\<rparr>)) = Inr []"
    by code_simp
  moreover have "fst (mirrorFilesToClickUp (stub_env [] True) [doc_a]
               (fresh_world\<lparr>clickup :=
                  JObj [(''apiKey'', JStr []), (''workspaceId'', JStr ''w1'')]\<rparr>)) = Inr []"
    by code_simp
  ultimately show ?thesis by simp
qed

text \<open>
  Claim C7, amended.  With credentials missing or empty, the pass returns the empty list
  and changes nothing but the log, which gets the start line and the error (a TypeError
  when the credentials were never loaded, \<open>Missing ClickUp credentials\<close> otherwise): no
  request is sent and the index file is not touched.
\<close>

theorem missing_credentials_return_empty:
  assumes "credentials_missing (clickup w)"
  shows "\<exists>e. mirrorFilesToClickUp E files w =
           (Inr [], w\<lparr>logs := logs w @
              [LogInfo ''Starting ClickUp mirroring operation...'',
               LogError ''ClickUp mirroring failed: '' e, LogStack e]\<rparr>)
         \<and> (e = TypeError \<or> e = Error ''Missing ClickUp credentials'')"
  using mirror_prepare_fails [OF prepare_pass_missing_credentials [OF assms], of E files]
  by auto

theorem missing_credentials_return_empty_witness:
  "credentials_missing (clickup (fresh_world\<lparr>clickup := JNull\<rparr>))
   \<and> (\<exists>e. mirrorFilesToClickUp (stub_env [] True) [doc_a] (fresh_world\<lparr>clickup := JNull\<rparr>) =
           (Inr [], fresh_world\<lparr>clickup := JNull\<rparr>
              \<lparr>logs := logs (fresh_world\<lparr>clickup := JNull\<rparr>) @
              [LogInfo ''Starting ClickUp mirroring operation...'',
               LogError ''ClickUp mirroring failed: '' e, LogStack e]\<rparr>)
         \<and> (e = TypeError \<or> e = Error ''Missing ClickUp credentials''))"
proof -
  have m: "credentials_missing (clickup (fresh_world\<lparr>clickup := JNull\<rparr>))"
    by (simp add: credentials_missing_def)
  from missing_credentials_return_empty [OF m] m show ?thesis
    by blast
qed

subsection \<open>Saving what was loaded\<close>

text \<open>
  Claim C8.  When the index file holds a well-formed index (its \<open>tasks\<close> an array of JSON
  values, its \<open>totalTasks\<close> their number), a successful save of what \<open>getExistingTasks\<close>
  loads writes the same \<open>totalTasks\<close> and the same \<open>tasks\<close> under a new \<open>generatedAt\<close>.  With
  no index file, \<open>getExistingTasks\<close> returns the empty list, and a successful save of it
  writes \<open>totalTasks = 0\<close> with no tasks.
\<close>

theorem index_roundtrip:
  assumes "fs_ok E"
  shows "(index_file w = Holds d \<and> get_prop d ''tasks'' = Inr (JArr ts)
            \<and> get_prop d ''totalTasks'' = Inr (JNum (int (length ts))) \<and> list_all is_json ts
          \<longrightarrow> index_file (snd (and_then getExistingTasks (saveTaskIndex E) w)) =
                Holds (JObj [(''generatedAt'', JStr (now E)),
                             (''totalTasks'', JNum (int (length ts))), (''tasks'', JArr ts)]))
       \<and> (index_file w = Absent
          \<longrightarrow> fst (getExistingTasks w) = Inr (JArr [])
              \<and> index_file (snd (and_then getExistingTasks (saveTaskIndex E) w)) =
                Holds (JObj [(''generatedAt'', JStr (now E)),
                             (''totalTasks'', JNum 0), (''tasks'', JArr [])]))"
  using assms
  by (auto simp: and_then_Inr [OF getExistingTasks_Holds] and_then_Inr [OF getExistingTasks_Absent]
      getExistingTasks_Absent saveTaskIndex_eq roundtrip_tasks_id)

theorem index_roundtrip_witness:
  "fs_ok (stub_env [] True)
   \<and> index_file indexed_world =
       Holds (JObj [(''generatedAt'', JStr ''2023-12-31T00:00:00.000Z''),
                    (''totalTasks'', JNum 1), (''tasks'', JArr [known_task])])
   \<and> list_all is_json [known_task]
   \<and> index_file (snd (and_then getExistingTasks (saveTaskIndex (stub_env [] True))
                        indexed_world)) =
       Holds (JObj [(''generatedAt'', JStr ''2024-01-01T00:00:00.000Z''),
                    (''totalTasks'', JNum 1), (''tasks'', JArr [known_task])])
   \<and> index_file fresh_world = Absent
   \<and> index_file (snd (and_then getExistingTasks (saveTaskIndex (stub_env [] True))
                        fresh_world)) =
       Holds (JObj [(''generatedAt'', JStr ''2024-01-01T00:00:00.000Z''),
                    (''totalTasks'', JNum 0), (''tasks'', JArr [])])"
proof -
  have ok: "fs_ok (stub_env [] True)"
    by (simp add: stub_env_def)
  from index_roundtrip
          [OF ok, of indexed_world
              "JObj [(''generatedAt'', JStr ''2023-12-31T00:00:00.000Z''),
                     (''totalTasks'', JNum 1), (''tasks'', JArr [known_task])]"
              "[known_task]"]
       index_roundtrip [OF ok, of fresh_world]
       ok
  show ?thesis
    by (simp add: indexed_world_def fresh_world_def known_task_def stub_env_def)
qed

subsection \<open>The scheduler's interval conversion\<close>

text \<open>
  Claim C9.  For every integer number of minutes that a JavaScript number holds exactly,
  \<open>convertMinutesToCron\<close> rejects a value below 1 with an error; from 1 on it answers with
  the expression "every \<open>m\<close> minutes" while \<open>m < 60\<close>, with "at minute \<open>m mod 60\<close> of every
  \<open>m div 60\<close>-th hour" while \<open>m < 1440\<close>, with "daily at hour and minute" while the
  interval is one day and some, and with "every \<open>m div 1440\<close> days at hour and minute" from
  two days on.
\<close>

theorem convertMinutesToCron_schedule:
  assumes "m \<le> 2 ^ 53"
  shows "convertMinutesToCron m =
     (if m < 1 then Inl (Error ''Minutes must be at least 1'')
      else if m < 60 then Inr (''*/'' @ show_int m @ '' * * * *'')
      else if m < 1440 then
        Inr (show_int (m mod 60) @ '' */'' @ show_int (m div 60) @ '' * * *'')
      else if m < 2880 then
        Inr (show_int (m mod 60) @ '' '' @ show_int (m div 60 mod 24) @ '' * * *'')
      else
        Inr (show_int (m mod 60) @ '' '' @ show_int (m div 60 mod 24)
             @ '' */'' @ show_int (m div 1440) @ '' * *''))"
proof -
  have days: "m div 60 div 24 = m div 1440"
    by (simp add: div_mult2_eq [symmetric])
  have hourly: "(m div 60 < 24) = (m < 1440)"
    by linarith
  have daily: "(m div 1440 = 1) = (1440 \<le> m \<and> m < 2880)"
    by linarith
  show ?thesis
    unfolding convertMinutesToCron_def Let_def days hourly daily by auto
qed

theorem convertMinutesToCron_schedule_witness:
  "(0::int) \<le> 2 ^ 53 \<and> (4405::int) \<le> 2 ^ 53
   \<and> convertMinutesToCron 0 = Inl (Error ''Minutes must be at least 1'')
   \<and> convertMinutesToCron 45 = Inr ''*/45 * * * *''
   \<and> convertMinutesToCron 390 = Inr ''30 */6 * * *''
   \<and> convertMinutesToCron 1500 = Inr ''0 1 * * *''
   \<and> convertMinutesToCron 4405 = Inr ''25 1 */3 * *''"
proof -
  have b0: "(0::int) \<le> 2 ^ 53" and b1: "(45::int) \<le> 2 ^ 53" and b2: "(390::int) \<le> 2 ^ 53"
    and b3: "(1500::int) \<le> 2 ^ 53" and b4: "(4405::int) \<le> 2 ^ 53"
    by simp_all
  from convertMinutesToCron_schedule [OF b0] convertMinutesToCron_schedule [OF b1]
    convertMinutesToCron_schedule [OF b2] convertMinutesToCron_schedule [OF b3]
    convertMinutesToCron_schedule [OF b4] b0 b4
  show ?thesis
    by (simp add: show_int_def digit_char_def)
qed

subsection \<open>No exception leaves a pass\<close>

text \<open>
  Claim C10.  \<open>mirrorFilesToClickUp\<close> returns normally for every task store, every list of
  files and every world.  Whenever its \<open>try\<close> block throws, which it does exactly when the
  preparation fails (credentials missing, index not iterable, destination list not
  resolved), it returns the empty list: what a pass over no files returns.
\<close>

theorem mirrorFilesToClickUp_never_throws:
  "(\<exists>rs. fst (mirrorFilesToClickUp E files w) = Inr rs)
   \<and> (\<forall>e w1. mirror_body E files w = (Inl e, w1) \<longrightarrow>
         fst (mirrorFilesToClickUp E files w) = Inr [])
   \<and> (\<forall>e w1. prepare_pass E w = (Inl e, w1) \<longrightarrow>
         fst (mirrorFilesToClickUp E files w) = Inr [])
   \<and> (credentials_missing (clickup w) \<longrightarrow> fst (mirrorFilesToClickUp E files w) = Inr [])
   \<and> fst (mirrorFilesToClickUp E [] w) = Inr []"
proof -
  have "\<exists>rs. fst (mirrorFilesToClickUp E files w) = Inr rs"
    by (auto simp: mirrorFilesToClickUp_def prog_defs split: prod.splits sum.splits)
  moreover have "fst (mirrorFilesToClickUp E files w) = Inr []"
    if "credentials_missing (clickup w)"
    using mirror_prepare_fails [OF prepare_pass_missing_credentials [OF that], of E files]
    by simp
  ultimately show ?thesis
    by (auto simp: mirror_body_fails mirror_prepare_fails mirror_empty)
qed

theorem mirrorFilesToClickUp_never_throws_witness:
  "prepare_pass (stub_env [] True)
       (fresh_world\<lparr>clickup := JObj [(''apiKey'', JStr ''pk_1''), (''workspaceId'', JStr ''w9'')]\<rparr>)
     = (Inl (HttpError ''Request failed with status code 404''),
        fresh_world
          \<lparr>clickup := JObj [(''apiKey'', JStr ''pk_1''), (''workspaceId'', JStr ''w9'')],
           requests := [Get (api @ ''/team/w9/space'') (JStr ''pk_1'')],
           logs := [LogInfo ''Starting ClickUp mirroring operation...'',
                    LogError ''Failed to get or create main list: ''
                      (HttpError ''Request failed with status code 404'')]\<rparr>)
   \<and> fst (mirrorFilesToClickUp (stub_env [] True) [doc_a]
            (fresh_world\<lparr>clickup :=
               JObj [(''apiKey'', JStr ''pk_1''), (''workspaceId'', JStr ''w9'')]\<rparr>)) = Inr []
   \<and> credentials_missing (clickup (fresh_world\<lparr>clickup := JNull\<rparr>))
   \<and> fst (mirrorFilesToClickUp (stub_env [] True) [doc_a] (fresh_world\<lparr>clickup := JNull\<rparr>))
       = Inr []"
proof -
  have prep: "prepare_pass (stub_env [] True)
       (fresh_world\<lparr>clickup := JObj [(''apiKey'', JStr ''pk_1''), (''workspaceId'', JStr ''w9'')]\<rparr>)
     = (Inl (HttpError ''Request failed with status code 404''),
        fresh_world
          \<lparr>clickup := JObj [(''apiKey'', JStr ''pk_1''), (''workspaceId'', JStr ''w9'')],
           requests := [Get (api @ ''/team/w9/space'') (JStr ''pk_1'')],
           logs := [LogInfo ''Starting ClickUp mirroring operation...'',
                    LogError ''Failed to get or create main list: ''
                      (HttpError ''Request failed with status code 404'')]\<rparr>)"
    by code_simp
  have m: "credentials_missing (clickup (fresh_world\<lparr>clickup := JNull\<rparr>))"
    by (simp add: credentials_missing_def)
  from mirrorFilesToClickUp_never_throws
         [of "stub_env [] True" "[doc_a]"
            "fresh_world\<lparr>clickup :=
               JObj [(''apiKey'', JStr ''pk_1''), (''workspaceId'', JStr ''w9'')]\<rparr>"]
       mirrorFilesToClickUp_never_throws
         [of "stub_env [] True" "[doc_a]" "fresh_world\<lparr>clickup := JNull\<rparr>"]
       prep m
  show ?thesis by blast
qed

end
